theory Spec2Isabelle
  imports Complex_Main "HOL-Library.Char_ord" "HOL-Library.List_Lexorder" "HOL-Library.Multiset"
begin

section \<open>Data model\<close>

text \<open>
  The engine of \<^verbatim>\<open>recommendation_engine.py\<close> works on two pandas tables. A table is
  modelled as the list of its rows, in row order. The catalog is read by index label too
  (\<^verbatim>\<open>.index[0]\<close>), so its rows come with their labels: the loaders of
  \<^verbatim>\<open>data_processor.py\<close> give the default \<^verbatim>\<open>RangeIndex\<close>, where the label of a row is its
  position, and \<^verbatim>\<open>preprocess_data\<close> drops rows and keeps the labels of the others.

  Floating-point numbers are modelled as exact reals: a statement on the value of a
  similarity or a score is a statement on the exact value, which the code's double differs
  from by rounding.
\<close>

record movie =
  movieId :: int
  title :: string
  genres :: "string option"
  year :: "int option"

record rating_row =
  r_userId :: int
  r_movieId :: int
  r_rating :: real
  r_timestamp :: "int option"

text \<open>
  A row of a returned table: the movie's columns, the \<^verbatim>\<open>similarity_score\<close> column and,
  only in the table of \<^verbatim>\<open>_get_popular_movies\<close>, the \<^verbatim>\<open>mean\<close> and \<^verbatim>\<open>count\<close> columns.
\<close>

record recommendation =
  rec_movie :: movie
  similarity_score :: real
  rec_stats :: "(real \<times> nat) option"

text \<open>
  \<^verbatim>\<open>user_item_matrix\<close>: the pivot table with its row labels (user ids), its column labels
  (movie ids) and its cells, one list per user.
\<close>

record user_item =
  ui_index :: "int list"
  ui_columns :: "int list"
  ui_values :: "real list list"

text \<open>
  The fields of \<^verbatim>\<open>RecommendationEngine\<close>. \<^verbatim>\<open>movies_df\<close> is kept as its rows and, beside
  them, their index labels. Of \<^verbatim>\<open>knn_model\<close> the model keeps the data it was fitted on
  (\<open>None\<close> while unfitted); of \<^verbatim>\<open>tfidf_vectorizer\<close> nothing is read after construction.
\<close>

record engine =
  movies_index :: "int list"
  movies_df :: "movie list"
  ratings_df :: "rating_row list"
  user_item_matrix :: user_item
  content_similarity_matrix :: "real list list"
  knn_model :: "real list list option"

datatype error = ValueError | NotFittedError | IndexError

section \<open>Python and pandas primitives\<close>

definition slice_upto :: "int \<Rightarrow> 'a list \<Rightarrow> 'a list" where
  \<comment> \<open>\<^verbatim>\<open>xs[:k]\<close> and \<^verbatim>\<open>DataFrame.head(k)\<close>: a negative \<open>k\<close> drops the last \<open>-k\<close> rows.\<close>
  "slice_upto k xs =
     (if 0 \<le> k then take (nat k) xs else take (length xs - nat (- k)) xs)"

definition slice_from1 :: "int \<Rightarrow> 'a list \<Rightarrow> 'a list" where
  \<comment> \<open>\<^verbatim>\<open>xs[1:k]\<close>\<close>
  "slice_from1 k xs = drop 1 (slice_upto k xs)"

definition sorted_desc :: "('a \<Rightarrow> real) \<Rightarrow> 'a list \<Rightarrow> 'a list" where
  \<comment> \<open>\<^verbatim>\<open>sorted(xs, key=f, reverse=True)\<close>: descending and stable (equal keys keep their
      order). pandas' \<^verbatim>\<open>sort_values(ascending=False)\<close> is modelled by it too; its default
      sort leaves the order of equal keys to the implementation.\<close>
  "sorted_desc f xs = sort_key (\<lambda>x. - f x) xs"

definition mean :: "real list \<Rightarrow> real" where
  "mean xs = sum_list xs / real (length xs)"

section \<open>The popularity fallback\<close>

definition group_stats :: "rating_row list \<Rightarrow> (int \<times> real \<times> nat) list" where
  \<comment> \<open>\<^verbatim>\<open>groupby('movieId')['rating'].agg(['mean', 'count']).reset_index()\<close>: one row
      per rated movie id, ids ascending.\<close>
  "group_stats rs =
     map (\<lambda>m. let xs = map r_rating (filter (\<lambda>r. r_movieId r = m) rs)
               in (m, mean xs, length xs))
         (sort (remdups (map r_movieId rs)))"

definition merge_movies :: "(int \<times> real \<times> nat) list \<Rightarrow> movie list \<Rightarrow> (movie \<times> real \<times> nat) list" where
  \<comment> \<open>\<^verbatim>\<open>avg_ratings.merge(movies_df, on='movieId')\<close>: inner join, in the order of the left
      keys.\<close>
  "merge_movies avg ms =
     concat (map (\<lambda>(m, mn, cnt). map (\<lambda>mv. (mv, mn, cnt)) (filter (\<lambda>mv. movieId mv = m) ms)) avg)"

definition get_popular_movies :: "engine \<Rightarrow> int \<Rightarrow> recommendation list" where
  "get_popular_movies e n_recommendations =
     (let avg_ratings = group_stats (ratings_df e);
          avg_ratings = filter (\<lambda>(m, mn, cnt). 10 \<le> cnt) avg_ratings;
          popular_movies = merge_movies avg_ratings (movies_df e);
          popular_movies = sorted_desc (\<lambda>(mv, mn, cnt). mn) popular_movies;
          popular_movies =
            map (\<lambda>(mv, mn, cnt).
                   \<lparr>rec_movie = mv, similarity_score = mn / 5, rec_stats = Some (mn, cnt)\<rparr>)
                popular_movies
      in slice_upto n_recommendations popular_movies)"

section \<open>Content-based recommendations\<close>

definition matching_rows :: "movie list \<Rightarrow> int \<Rightarrow> movie list" where
  \<comment> \<open>The rows of \<^verbatim>\<open>movies_df[movies_df['movieId'] == movie_id]\<close>.\<close>
  "matching_rows ms movie_id = filter (\<lambda>m. movieId m = movie_id) ms"

definition matching_labels :: "int list \<Rightarrow> movie list \<Rightarrow> int \<Rightarrow> int list" where
  \<comment> \<open>The index labels of \<^verbatim>\<open>movies_df[movies_df['movieId'] == movie_id]\<close>.\<close>
  "matching_labels labels ms movie_id =
     map fst (filter (\<lambda>(l, m). movieId m = movie_id) (zip labels ms))"

definition matrix_row :: "'a list \<Rightarrow> int \<Rightarrow> 'a option" where
  \<comment> \<open>\<^verbatim>\<open>matrix[k]\<close> on a numpy array: a position, counted from the end when negative;
      \<open>None\<close> is \<^verbatim>\<open>IndexError\<close>.\<close>
  "matrix_row rows k =
     (let n = int (length rows)
      in if 0 \<le> k \<and> k < n then Some (rows ! nat k)
         else if - n \<le> k \<and> k < 0 then Some (rows ! nat (n + k))
         else None)"

definition content_based_recommendations :: "engine \<Rightarrow> int \<Rightarrow> int \<Rightarrow> recommendation list" where
  \<comment> \<open>\<^verbatim>\<open>movie_idx\<close> is the index label of the first matching row, and the code uses it as a
      position in the similarity matrix. Every \<^verbatim>\<open>IndexError\<close> of the \<^verbatim>\<open>try\<close> block (no
      matching row, a label that is no position of the matrix, a position outside the
      catalog) ends in the popularity fallback.\<close>
  "content_based_recommendations e movie_id n_recommendations =
     (case matching_labels (movies_index e) (movies_df e) movie_id of
        [] \<Rightarrow> get_popular_movies e n_recommendations
      | movie_idx # _ \<Rightarrow>
          (case matrix_row (content_similarity_matrix e) movie_idx of
             None \<Rightarrow> get_popular_movies e n_recommendations
           | Some row \<Rightarrow>
               let similarity_scores = enumerate 0 row;
                   similarity_scores =
                     slice_from1 (n_recommendations + 1) (sorted_desc snd similarity_scores);
                   movie_indices = map fst similarity_scores
               in if \<exists>i \<in> set movie_indices. length (movies_df e) \<le> i
                  then get_popular_movies e n_recommendations
                  else map (\<lambda>(i, s). \<lparr>rec_movie = movies_df e ! i, similarity_score = s,
                                       rec_stats = None\<rparr>)
                           similarity_scores))"

section \<open>Construction\<close>

subsection \<open>The TF-IDF vectorizer and cosine similarity of scikit-learn\<close>

text \<open>
  \<^verbatim>\<open>TfidfVectorizer(stop_words='english')\<close> with its defaults: the text is lowercased,
  the tokens are the matches of \<^verbatim>\<open>\b\w\w+\b\<close> (the maximal runs of two or more word
  characters), the tokens of the stop list are removed, the vocabulary is the sorted set of
  the remaining tokens, a cell is the term count times the smoothed inverse document
  frequency, and each row is scaled to Euclidean length one (a zero row stays zero).
  The analyzer (lowercasing, tokens, stop list) is a parameter of the model, so that what
  is proved holds for the library's, on any text; \<open>analyze\<close> below is that analyzer on ASCII
  text, with the stop list (a constant of the library) as its parameter.
\<close>

definition is_word_char :: "char \<Rightarrow> bool" where
  "is_word_char c =
     (let k = (of_char c :: nat)
      in (48 \<le> k \<and> k \<le> 57) \<or> (65 \<le> k \<and> k \<le> 90) \<or> k = 95 \<or> (97 \<le> k \<and> k \<le> 122))"

definition lower_char :: "char \<Rightarrow> char" where
  "lower_char c =
     (let k = (of_char c :: nat) in if 65 \<le> k \<and> k \<le> 90 then char_of (k + 32) else c)"

fun word_runs :: "string \<Rightarrow> string \<Rightarrow> string list" where
  "word_runs cur [] = (if cur = [] then [] else [cur])"
| "word_runs cur (c # cs) =
     (if is_word_char c then word_runs (cur @ [c]) cs
      else (if cur = [] then [] else [cur]) @ word_runs [] cs)"

definition analyze :: "string list \<Rightarrow> string \<Rightarrow> string list" where
  "analyze stop_words doc =
     filter (\<lambda>t. t \<notin> set stop_words)
       (filter (\<lambda>t. 2 \<le> length t) (word_runs [] (map lower_char doc)))"

definition vocabulary :: "string list list \<Rightarrow> string list" where
  "vocabulary docs = sort (remdups (concat docs))"

definition idf :: "string list list \<Rightarrow> string \<Rightarrow> real" where
  "idf docs t =
     ln ((1 + real (length docs)) / (1 + real (length (filter (\<lambda>d. t \<in> set d) docs)))) + 1"

definition l2_norm :: "real list \<Rightarrow> real" where
  "l2_norm v = sqrt (sum_list (map (\<lambda>x. x * x) v))"

definition normalize_row :: "real list \<Rightarrow> real list" where
  \<comment> \<open>\<^verbatim>\<open>sklearn.preprocessing.normalize\<close>: a zero norm is replaced by one.\<close>
  "normalize_row v = (let nrm = l2_norm v in if nrm = 0 then v else map (\<lambda>x. x / nrm) v)"

definition dot :: "real list \<Rightarrow> real list \<Rightarrow> real" where
  "dot u v = sum_list (map (\<lambda>(x, y). x * y) (zip u v))"

definition fit_transform ::
  "(string \<Rightarrow> string list) \<Rightarrow> string list \<Rightarrow> error + real list list" where
  \<comment> \<open>An empty vocabulary raises \<^verbatim>\<open>ValueError\<close>.\<close>
  "fit_transform analyzer raw_documents =
     (let docs = map analyzer raw_documents;
          vocab = vocabulary docs
      in if vocab = [] then Inl ValueError
         else Inr (map (\<lambda>d. normalize_row (map (\<lambda>t. real (count_list d t) * idf docs t) vocab))
                       docs))"

definition cosine_similarity :: "real list list \<Rightarrow> real list list" where
  \<comment> \<open>\<^verbatim>\<open>cosine_similarity(X)\<close>: the rows are normalized, then multiplied pairwise.\<close>
  "cosine_similarity X =
     (let Xn = map normalize_row X in map (\<lambda>u. map (\<lambda>v. dot u v) Xn) Xn)"

subsection \<open>The pivot table and the neighbour model\<close>

definition pivot_table :: "rating_row list \<Rightarrow> user_item" where
  \<comment> \<open>\<^verbatim>\<open>pivot_table(index='userId', columns='movieId', values='rating', fill_value=0)\<close>:
      sorted labels, a cell is the mean of the ratings of its pair, or 0.\<close>
  "pivot_table rs =
     (let idx = sort (remdups (map r_userId rs));
          cols = sort (remdups (map r_movieId rs))
      in \<lparr>ui_index = idx, ui_columns = cols,
          ui_values =
            map (\<lambda>u. map (\<lambda>m. let xs = map r_rating
                                       (filter (\<lambda>r. r_userId r = u \<and> r_movieId r = m) rs)
                                in if xs = [] then 0 else mean xs)
                          cols)
                idx\<rparr>)"

definition ui_transpose :: "user_item \<Rightarrow> real list list" where
  \<comment> \<open>\<^verbatim>\<open>user_item_matrix.T.values\<close>: one row per movie column.\<close>
  "ui_transpose ui =
     map (\<lambda>j. map (\<lambda>row. row ! j) (ui_values ui)) [0..<length (ui_columns ui)]"

definition prepare_collaborative_model :: "user_item \<Rightarrow> real list list option" where
  "prepare_collaborative_model ui =
     (let movie_item_matrix = ui_transpose ui
      in if 0 < length movie_item_matrix then Some movie_item_matrix else None)"

definition fillna :: "movie \<Rightarrow> movie" where
  \<comment> \<open>\<^verbatim>\<open>movies_df['genres'].fillna('')\<close>\<close>
  "fillna m = m\<lparr>genres := Some (case genres m of None \<Rightarrow> [] | Some g \<Rightarrow> g)\<rparr>"

definition genres_text :: "movie \<Rightarrow> string" where
  "genres_text m = (case genres m of None \<Rightarrow> [] | Some g \<Rightarrow> g)"

definition RecommendationEngine ::
  "(string \<Rightarrow> string list) \<Rightarrow> (int \<times> movie) list \<Rightarrow> rating_row list \<Rightarrow> error + engine" where
  \<comment> \<open>\<^verbatim>\<open>__init__\<close> with \<^verbatim>\<open>_prepare_data\<close>, on the catalog as its rows with their index
      labels: the only exception is the vectorizer's.\<close>
  "RecommendationEngine analyzer movies ratings =
     (let ms = map (fillna \<circ> snd) movies;
          ui = pivot_table ratings
      in case fit_transform analyzer (map genres_text ms) of
           Inl err \<Rightarrow> Inl err
         | Inr tfidf_matrix \<Rightarrow>
             Inr \<lparr>movies_index = map fst movies, movies_df = ms, ratings_df = ratings,
                  user_item_matrix = ui,
                  content_similarity_matrix = cosine_similarity tfidf_matrix,
                  knn_model = prepare_collaborative_model ui\<rparr>)"

section \<open>Collaborative filtering\<close>

definition cosine_distance :: "real list \<Rightarrow> real list \<Rightarrow> real" where
  \<comment> \<open>\<^verbatim>\<open>cosine_distances\<close>: one minus the similarity, clipped to \<open>[0, 2]\<close>.\<close>
  "cosine_distance q x = max 0 (min 2 (1 - dot (normalize_row q) (normalize_row x)))"

definition kneighbors ::
  "real list list option \<Rightarrow> real list \<Rightarrow> int \<Rightarrow> error + (real list \<times> nat list)" where
  \<comment> \<open>\<^verbatim>\<open>NearestNeighbors(metric='cosine', algorithm='brute').kneighbors\<close>: the
      \<open>n_neighbors\<close> fitted rows nearest to the query, nearest first (rows at equal distance
      in row order).\<close>
  "kneighbors model q n_neighbors =
     (case model of
        None \<Rightarrow> Inl NotFittedError
      | Some X \<Rightarrow>
          if n_neighbors \<le> 0 \<or> int (length X) < n_neighbors then Inl ValueError
          else let nearest = take (nat n_neighbors)
                               (sort_key snd (enumerate 0 (map (cosine_distance q) X)))
               in Inr (map snd nearest, map fst nearest))"

definition index_of :: "'a list \<Rightarrow> 'a \<Rightarrow> nat" where
  \<comment> \<open>\<^verbatim>\<open>list.index\<close> of a member: its first position.\<close>
  "index_of xs a = length (takeWhile (\<lambda>x. x \<noteq> a) xs)"

definition movie_row :: "engine \<Rightarrow> int \<Rightarrow> real \<Rightarrow> recommendation list" where
  \<comment> \<open>The first catalog row of the id, as a dict with the score; nothing when the id is not
      in the catalog.\<close>
  "movie_row e movie_id s =
     (case matching_rows (movies_df e) movie_id of
        [] \<Rightarrow> []
      | m # _ \<Rightarrow> [\<lparr>rec_movie = m, similarity_score = s, rec_stats = None\<rparr>])"

definition similar_movies :: "engine \<Rightarrow> int \<Rightarrow> int \<Rightarrow> error + recommendation list" where
  \<comment> \<open>One round of the loop over \<^verbatim>\<open>movie_ids\<close>: the rows appended for one seed.\<close>
  "similar_movies e n_recommendations movie_id =
     (let cols = ui_columns (user_item_matrix e)
      in if movie_id \<in> set cols then
           let movie_idx = index_of cols movie_id
           in case kneighbors (knn_model e) (ui_transpose (user_item_matrix e) ! movie_idx)
                     (min (n_recommendations + 1) (int (length cols))) of
                Inl err \<Rightarrow> Inl err
              | Inr (distances, indices) \<Rightarrow>
                  let similar_movie_indices = drop 1 indices;
                      similarity_scores = map (\<lambda>d. 1 - d) (drop 1 distances)
                  in if \<exists>idx \<in> set similar_movie_indices. length cols \<le> idx
                     then Inl IndexError
                     else Inr (concat (map (\<lambda>(idx, s). movie_row e (cols ! idx) s)
                                           (zip similar_movie_indices similarity_scores)))
         else Inr [])"

fun recommendations_list :: "engine \<Rightarrow> int \<Rightarrow> int list \<Rightarrow> error + recommendation list" where
  "recommendations_list e n [] = Inr []"
| "recommendations_list e n (movie_id # movie_ids) =
     (case similar_movies e n movie_id of
        Inl err \<Rightarrow> Inl err
      | Inr rs \<Rightarrow>
          (case recommendations_list e n movie_ids of
             Inl err \<Rightarrow> Inl err
           | Inr rs' \<Rightarrow> Inr (rs @ rs')))"

fun drop_duplicates :: "('a \<Rightarrow> 'k) \<Rightarrow> 'a list \<Rightarrow> 'a list" where
  \<comment> \<open>\<^verbatim>\<open>drop_duplicates(subset=[key])\<close>: the first row of each key is kept.\<close>
  "drop_duplicates f [] = []"
| "drop_duplicates f (x # xs) = x # drop_duplicates f (filter (\<lambda>y. f y \<noteq> f x) xs)"

definition rec_id :: "recommendation \<Rightarrow> int" where
  "rec_id r = movieId (rec_movie r)"

definition collaborative_filtering_recommendations ::
  "engine \<Rightarrow> int list \<Rightarrow> int \<Rightarrow> recommendation list" where
  \<comment> \<open>Any exception of the \<^verbatim>\<open>try\<close> block ends in the popularity fallback.\<close>
  "collaborative_filtering_recommendations e movie_ids n_recommendations =
     (case recommendations_list e n_recommendations movie_ids of
        Inl err \<Rightarrow> get_popular_movies e n_recommendations
      | Inr recs \<Rightarrow>
          if recs \<noteq> []
          then slice_upto n_recommendations
                 (sorted_desc similarity_score (drop_duplicates rec_id recs))
          else get_popular_movies e n_recommendations)"

section \<open>Hybrid recommendations\<close>

fun dict_add :: "(int \<times> real) list \<Rightarrow> int \<Rightarrow> real \<Rightarrow> (int \<times> real) list" where
  \<comment> \<open>\<^verbatim>\<open>d[k] = d.get(k, 0) + v\<close> on a dict, kept as the list of its items in insertion
      order.\<close>
  "dict_add [] k v = [(k, 0 + v)]"
| "dict_add ((k', v') # d) k v =
     (if k' = k then (k', v' + v) # d else (k', v') # dict_add d k v)"

definition add_scores :: "real \<Rightarrow> (int \<times> real) list \<Rightarrow> recommendation list \<Rightarrow> (int \<times> real) list" where
  "add_scores weight d recs =
     foldl (\<lambda>d movie. dict_add d (rec_id movie) (weight * similarity_score movie)) d recs"

definition hybrid_recommendations ::
  "engine \<Rightarrow> int list \<Rightarrow> int \<Rightarrow> real \<Rightarrow> real \<Rightarrow> recommendation list" where
  \<comment> \<open>\<^verbatim>\<open>hybrid_scores[movie_id]\<close> in the last loop is the score paired with the id in
      \<^verbatim>\<open>sorted_movies\<close>, a dict having one item per key.\<close>
  "hybrid_recommendations e movie_ids n_recommendations content_weight collab_weight =
     (let hybrid_scores = [];
          hybrid_scores =
            (case movie_ids of
               [] \<Rightarrow> hybrid_scores
             | movie_id0 # _ \<Rightarrow>
                 add_scores content_weight hybrid_scores
                   (content_based_recommendations e movie_id0 (n_recommendations * 2)));
          collab_recs =
            collaborative_filtering_recommendations e movie_ids (n_recommendations * 2);
          hybrid_scores = add_scores collab_weight hybrid_scores collab_recs;
          sorted_movies = sorted_desc snd hybrid_scores;
          recommendations =
            concat (map (\<lambda>(movie_id, s). movie_row e movie_id s)
                        (slice_upto n_recommendations sorted_movies))
      in if recommendations \<noteq> [] then recommendations
         else get_popular_movies e n_recommendations)"

section \<open>Recommendations for a user\<close>


section \<open>A small catalog\<close>

text \<open>
  Three movies, two with the same genre and one without genres, rated by eleven users.
  The stop list is an excerpt of the library's; no token of the catalog is on the full list.
\<close>

definition range_index :: "'a list \<Rightarrow> (int \<times> 'a) list" where
  \<comment> \<open>A table with the default \<^verbatim>\<open>RangeIndex\<close>: the label of a row is its position.\<close>
  "range_index rows = zip (map int [0..<length rows]) rows"

definition sample_stop_words :: "string list" where
  "sample_stop_words = [''the'', ''and'', ''of'']"

definition sample_movies :: "movie list" where
  "sample_movies =
     [\<lparr>movieId = 1, title = ''Heat'', genres = Some ''Drama'', year = Some 1995\<rparr>,
      \<lparr>movieId = 2, title = ''Casino'', genres = Some ''Drama'', year = Some 1995\<rparr>,
      \<lparr>movieId = 3, title = ''Rush'', genres = None, year = None\<rparr>]"

definition sample_ratings :: "rating_row list" where
  "sample_ratings =
     map (\<lambda>u. \<lparr>r_userId = u, r_movieId = 1, r_rating = 4, r_timestamp = None\<rparr>) [1..10] @
     [\<lparr>r_userId = 1, r_movieId = 2, r_rating = 5, r_timestamp = None\<rparr>,
      \<lparr>r_userId = 2, r_movieId = 2, r_rating = 3, r_timestamp = None\<rparr>,
      \<lparr>r_userId = 11, r_movieId = 2, r_rating = 2, r_timestamp = None\<rparr>]"

definition sample_analyzer :: "string \<Rightarrow> string list" where
  "sample_analyzer = analyze sample_stop_words"

definition sample_engine :: "rating_row list \<Rightarrow> engine" where
  "sample_engine rs =
     \<lparr>movies_index = [0, 1, 2], movies_df = map fillna sample_movies, ratings_df = rs,
      user_item_matrix = pivot_table rs,
      content_similarity_matrix = [[1, 1, 0], [1, 1, 0], [0, 0, 0]],
      knn_model = prepare_collaborative_model (pivot_table rs)\<rparr>"

definition duplicate_movies :: "movie list" where
  \<comment> \<open>Two rows with the same id.\<close>
  "duplicate_movies =
     [\<lparr>movieId = 1, title = ''Heat'', genres = Some ''Drama'', year = Some 1995\<rparr>,
      \<lparr>movieId = 1, title = ''Heat'', genres = Some ''Crime|Drama'', year = Some 1995\<rparr>]"

definition gapped_movies :: "(int \<times> movie) list" where
  \<comment> \<open>The sample catalog after \<^verbatim>\<open>dropna\<close> has dropped its second row: the labels 0 and 2
      remain.\<close>
  "gapped_movies = [(0, sample_movies ! 0), (2, sample_movies ! 2)]"


section \<open>Notions used in the statements\<close>

definition ratings_of :: "engine \<Rightarrow> int \<Rightarrow> real list" where
  \<comment> \<open>The ratings backing a movie id: the \<^verbatim>\<open>rating\<close> column of its rows of \<^verbatim>\<open>ratings_df\<close>.\<close>
  "ratings_of e m = map r_rating (filter (\<lambda>r. r_movieId r = m) (ratings_df e))"

definition popular_table :: "engine \<Rightarrow> recommendation list" where
  \<comment> \<open>The table of \<^verbatim>\<open>_get_popular_movies\<close> before \<^verbatim>\<open>head\<close>.\<close>
  "popular_table e =
     map (\<lambda>(mv, mn, cnt). \<lparr>rec_movie = mv, similarity_score = mn / 5, rec_stats = Some (mn, cnt)\<rparr>)
       (sorted_desc (\<lambda>(mv, mn, cnt). mn)
          (merge_movies (filter (\<lambda>(m, mn, cnt). 10 \<le> cnt) (group_stats (ratings_df e)))
             (movies_df e)))"




section \<open>Vectors\<close>

lemma idf_ge_1: "1 \<le> idf docs t"
proof -
  have "real (length (filter (\<lambda>d. t \<in> set d) docs)) \<le> real (length docs)"
    by simp
  then have "1 \<le> (1 + real (length docs)) / (1 + real (length (filter (\<lambda>d. t \<in> set d) docs)))"
    by (simp add: le_divide_eq)
  then have "0 \<le> ln ((1 + real (length docs)) / (1 + real (length (filter (\<lambda>d. t \<in> set d) docs))))"
    by (rule ln_ge_zero)
  then show ?thesis by (simp add: idf_def)
qed

lemma sumsq_nonneg: "0 \<le> sum_list (map (\<lambda>x. x * x) (v :: real list))"
  by (induction v) simp_all

lemma sumsq_zero_iff: "sum_list (map (\<lambda>x. x * x) (v :: real list)) = 0 \<longleftrightarrow> (\<forall>x \<in> set v. x = 0)"
proof (induction v)
  case Nil
  then show ?case by simp
next
  case (Cons a v)
  have "0 \<le> a * a" by simp
  with sumsq_nonneg [of v] have "a * a + sum_list (map (\<lambda>x. x * x) v) = 0 \<longleftrightarrow> a * a = 0 \<and> sum_list (map (\<lambda>x. x * x) v) = 0"
    by (simp add: add_nonneg_eq_0_iff)
  with Cons show ?case by simp
qed

lemma l2_norm_nonneg: "0 \<le> l2_norm v"
  by (simp add: l2_norm_def sumsq_nonneg)

lemma l2_norm_zero_iff: "l2_norm v = 0 \<longleftrightarrow> (\<forall>x \<in> set v. x = 0)"
  by (simp add: l2_norm_def sumsq_zero_iff)

lemma l2_norm_sq: "l2_norm v * l2_norm v = sum_list (map (\<lambda>x. x * x) v)"
  by (simp add: l2_norm_def sumsq_nonneg)

lemma sumsq_scale: "sum_list (map (\<lambda>x. x * x) (map (\<lambda>x. x / c) v)) = sum_list (map (\<lambda>x. x * x) v) / (c * c)" for c :: real
  by (induction v) (simp_all add: add_divide_distrib)

lemma sumsq_normalize:
  "sum_list (map (\<lambda>x. x * x) (normalize_row v)) = (if l2_norm v = 0 then 0 else 1)"
proof (cases "l2_norm v = 0")
  case True
  then show ?thesis by (simp add: normalize_row_def sumsq_zero_iff l2_norm_zero_iff)
next
  case False
  have "sum_list (map (\<lambda>x. x * x) (map (\<lambda>x. x / l2_norm v) v))
          = sum_list (map (\<lambda>x. x * x) v) / (l2_norm v * l2_norm v)"
    by (rule sumsq_scale)
  also have "\<dots> = 1" using False by (simp add: l2_norm_sq [symmetric])
  finally show ?thesis using False by (simp only: normalize_row_def Let_def if_False)
qed

lemma length_normalize_row: "length (normalize_row v) = length v"
  by (simp add: normalize_row_def Let_def)

lemma normalize_row_nonneg: "\<forall>x \<in> set v. 0 \<le> x \<Longrightarrow> \<forall>x \<in> set (normalize_row v). 0 \<le> x"
  using l2_norm_nonneg [of v] by (auto simp: normalize_row_def Let_def)

lemma l2_norm_normalize: "l2_norm (normalize_row v) = (if l2_norm v = 0 then 0 else 1)"
  by (simp add: l2_norm_def [of "normalize_row v"] sumsq_normalize)

lemma normalize_row_idem: "normalize_row (normalize_row v) = normalize_row v"
proof (cases "l2_norm v = 0")
  case True
  then show ?thesis by (simp add: normalize_row_def)
next
  case False
  then have "l2_norm (normalize_row v) = 1" by (simp add: l2_norm_normalize)
  then show ?thesis by (simp add: normalize_row_def [of "normalize_row v"])
qed

lemma dot_commute: "dot u v = dot v u"
proof -
  have "map (\<lambda>(x, y). x * y) (zip u v) = map (\<lambda>(x, y). x * y) (zip v u)"
    by (induction u v rule: list_induct2') simp_all
  then show ?thesis by (simp add: dot_def)
qed

lemma dot_nonneg: "\<forall>x \<in> set u. 0 \<le> x \<Longrightarrow> \<forall>x \<in> set v. 0 \<le> x \<Longrightarrow> 0 \<le> dot u v"
  unfolding dot_def by (induction u v rule: list_induct2') simp_all

lemma dot_le_sumsq:
  "2 * dot u v \<le> sum_list (map (\<lambda>x. x * x) u) + sum_list (map (\<lambda>x. x * x) v)"
proof (induction u v rule: list_induct2')
  case 1
  then show ?case by (simp add: dot_def)
next
  case (2 x xs)
  then show ?case using sumsq_nonneg [of "x # xs"] by (simp add: dot_def)
next
  case (3 y ys)
  then show ?case using sumsq_nonneg [of "y # ys"] by (simp add: dot_def)
next
  case (4 x xs y ys)
  have "2 * (x * y) \<le> x * x + y * y"
    using sum_squares_bound [of x y] by (simp add: power2_eq_square)
  with 4 show ?case by (simp add: dot_def algebra_simps)
qed

lemma dot_self: "dot v v = sum_list (map (\<lambda>x. x * x) v)"
  by (induction v) (simp_all add: dot_def)

lemma dot_normalize_le_1: "dot (normalize_row u) (normalize_row v) \<le> 1"
  using dot_le_sumsq [of "normalize_row u" "normalize_row v"]
  by (simp add: sumsq_normalize split: if_splits)

lemma dot_normalize_self: "dot (normalize_row v) (normalize_row v) = (if \<forall>x \<in> set v. x = 0 then 0 else 1)"
  by (simp add: dot_self sumsq_normalize l2_norm_zero_iff)

section \<open>Basic facts\<close>

subsection \<open>The sample engine\<close>

lemma sample_docs:
  "map sample_analyzer (map genres_text (map fillna sample_movies))
     = [[''drama''], [''drama''], []]"
  unfolding sample_analyzer_def by code_simp

lemma sample_tfidf:
  "fit_transform sample_analyzer (map genres_text (map fillna sample_movies))
     = Inr [[1], [1], [0]]"
proof -
  have "0 < idf [[''drama''], [''drama''], []] ''drama''"
    using idf_ge_1 [of "[[''drama''], [''drama''], []]" "''drama''"] by simp
  then show ?thesis
    unfolding fit_transform_def sample_docs
    by (simp add: vocabulary_def normalize_row_def l2_norm_def Let_def)
qed

lemma range_index_rows: "map snd (range_index rows) = rows"
  by (simp add: range_index_def)

lemma range_index_labels: "map fst (range_index rows) = map int [0..<length rows]"
  by (simp add: range_index_def)

lemma sample_labels: "map fst (range_index sample_movies) = [0, 1, 2]"
  by (simp add: range_index_labels sample_movies_def upt_rec)

lemma sample_engine_constructs:
  "RecommendationEngine sample_analyzer (range_index sample_movies) rs = Inr (sample_engine rs)"
proof -
  have "map (fillna \<circ> snd) (range_index sample_movies)
          = map fillna (map snd (range_index sample_movies))"
    by simp
  then have ms: "map (fillna \<circ> snd) (range_index sample_movies) = map fillna sample_movies"
    by (simp only: range_index_rows)
  show ?thesis
    unfolding RecommendationEngine_def Let_def ms sample_tfidf sample_labels
    by (simp add: sample_engine_def cosine_similarity_def normalize_row_def l2_norm_def dot_def)
qed

lemma sample_movies_df:
  "movies_df (sample_engine rs) =
     [\<lparr>movieId = 1, title = ''Heat'', genres = Some ''Drama'', year = Some 1995\<rparr>,
      \<lparr>movieId = 2, title = ''Casino'', genres = Some ''Drama'', year = Some 1995\<rparr>,
      \<lparr>movieId = 3, title = ''Rush'', genres = Some [], year = None\<rparr>]"
  by (simp add: sample_engine_def sample_movies_def fillna_def)

subsection \<open>The fields of a constructed engine\<close>

lemma engine_fields:
  assumes "RecommendationEngine an fr rs = Inr e"
  obtains X where "fit_transform an (map genres_text (map fillna (map snd fr))) = Inr X"
    and "movies_index e = map fst fr"
    and "movies_df e = map fillna (map snd fr)"
    and "ratings_df e = rs"
    and "user_item_matrix e = pivot_table rs"
    and "content_similarity_matrix e = cosine_similarity X"
    and "knn_model e = prepare_collaborative_model (pivot_table rs)"
  using assms unfolding RecommendationEngine_def Let_def
  by (auto split: sum.splits)


lemma engine_ratings:
  "RecommendationEngine an fr rs = Inr e \<Longrightarrow> ratings_df e = rs"
  by (erule engine_fields)

lemma engine_movies:
  "RecommendationEngine an fr rs = Inr e \<Longrightarrow> movies_df e = map fillna (map snd fr)"
  by (erule engine_fields)


lemma engine_index_length:
  "RecommendationEngine an fr rs = Inr e \<Longrightarrow> length (movies_index e) = length (movies_df e)"
  by (erule engine_fields) simp

lemma fit_transform_length:
  "fit_transform an docs = Inr X \<Longrightarrow> length X = length docs"
  by (auto simp: fit_transform_def Let_def split: if_splits)

lemma length_cosine_similarity: "length (cosine_similarity X) = length X"
  by (simp add: cosine_similarity_def Let_def)

lemma cosine_similarity_row:
  "i < length X \<Longrightarrow>
     cosine_similarity X ! i = map (\<lambda>v. dot (normalize_row (X ! i)) v) (map normalize_row X)"
  by (simp add: cosine_similarity_def Let_def)

lemma cosine_similarity_entry:
  "i < length X \<Longrightarrow> j < length X \<Longrightarrow>
     cosine_similarity X ! i ! j = dot (normalize_row (X ! i)) (normalize_row (X ! j))"
  by (simp add: cosine_similarity_row)

lemma engine_matrix_shape:
  assumes "RecommendationEngine an fr rs = Inr e"
  shows "length (content_similarity_matrix e) = length (movies_df e)"
    and "i < length (movies_df e) \<Longrightarrow> length (content_similarity_matrix e ! i) = length (movies_df e)"
proof -
  from assms obtain X where X: "fit_transform an (map genres_text (map fillna (map snd fr))) = Inr X"
    and m: "movies_df e = map fillna (map snd fr)"
    and c: "content_similarity_matrix e = cosine_similarity X"
    by (rule engine_fields)
  from fit_transform_length [OF X] have len: "length X = length fr" by simp
  show "length (content_similarity_matrix e) = length (movies_df e)"
    by (simp only: m c length_cosine_similarity len length_map)
  show "length (content_similarity_matrix e ! i) = length (movies_df e)" if "i < length (movies_df e)"
  proof -
    from that have "i < length X" by (simp only: m len length_map)
    then show ?thesis by (simp only: m c cosine_similarity_row length_map len)
  qed
qed

subsection \<open>Slices\<close>

lemma length_slice_from1:
  "0 \<le> n \<Longrightarrow> length (slice_from1 (n + 1) xs) = min (nat n) (length xs - 1)"
  by (auto simp: slice_from1_def slice_upto_def nat_add_distrib)

lemma set_slice_upto: "set (slice_upto k xs) \<subseteq> set xs"
  by (auto simp: slice_upto_def dest: in_set_takeD)

lemma set_slice_from1: "set (slice_from1 k xs) \<subseteq> set xs"
  using set_slice_upto [of k xs] by (auto simp: slice_from1_def dest: in_set_dropD)

lemma set_sorted_desc [simp]: "set (sorted_desc f xs) = set xs"
  by (simp add: sorted_desc_def)

lemma length_sorted_desc [simp]: "length (sorted_desc f xs) = length xs"
  by (simp add: sorted_desc_def)

subsection \<open>Rows of the catalog\<close>

lemma matching_rows_in:
  "m \<in> set (matching_rows ms movie_id) \<Longrightarrow> m \<in> set ms \<and> movieId m = movie_id"
  by (simp add: matching_rows_def)

lemma matching_rows_empty_iff:
  "matching_rows ms movie_id = [] \<longleftrightarrow> movie_id \<notin> movieId ` set ms"
  by (auto simp: matching_rows_def filter_empty_conv)

lemma matching_labels_empty:
  assumes "movie_id \<notin> movieId ` set ms"
  shows "matching_labels labels ms movie_id = []"
proof -
  have "\<not> (case p of (l, m) \<Rightarrow> movieId m = movie_id)" if "p \<in> set (zip labels ms)" for p
  proof -
    obtain l m where p: "p = (l, m)" by (cases p)
    with that have "m \<in> set ms" by (auto dest: set_zip_rightD)
    with assms p show ?thesis by auto
  qed
  then show ?thesis by (simp add: matching_labels_def filter_empty_conv)
qed

lemma matrix_row_Some:
  assumes "matrix_row rows k = Some r"
  shows "\<exists>i < length rows. r = rows ! i"
proof -
  from assms consider "0 \<le> k" "k < int (length rows)" "r = rows ! nat k"
    | "- int (length rows) \<le> k" "k < 0" "r = rows ! nat (int (length rows) + k)"
    by (auto simp: matrix_row_def Let_def split: if_splits)
  then show ?thesis
  proof cases
    case 1
    then have "nat k < length rows" by simp
    with 1(3) show ?thesis by blast
  next
    case 2
    then have "nat (int (length rows) + k) < length rows" by simp
    with 2(3) show ?thesis by blast
  qed
qed

lemma matrix_row_position:
  "i < length rows \<Longrightarrow> matrix_row rows (int i) = Some (rows ! i)"
  by (simp add: matrix_row_def)

section \<open>Construction: results\<close>

lemma vocabulary_empty_iff: "vocabulary docs = [] \<longleftrightarrow> (\<forall>d \<in> set docs. d = [])"
proof -
  have "vocabulary docs = [] \<longleftrightarrow> set (vocabulary docs) = {}" by simp
  also have "\<dots> \<longleftrightarrow> (\<forall>d \<in> set docs. d = [])" by (auto simp: vocabulary_def)
  finally show ?thesis .
qed

lemma set_vocabulary: "set (vocabulary docs) = (\<Union>d \<in> set docs. set d)"
  by (simp add: vocabulary_def)

lemma genres_text_fillna [simp]: "genres_text (fillna m) = genres_text m"
  by (simp add: genres_text_def fillna_def split: option.splits)

lemma fit_transform_fails_iff:
  "isl (fit_transform an raw) \<longleftrightarrow> (\<forall>d \<in> set raw. an d = [])"
  by (auto simp: fit_transform_def Let_def vocabulary_empty_iff)

lemma fit_transform_error: "fit_transform an raw = Inl err \<Longrightarrow> err = ValueError"
  by (auto simp: fit_transform_def Let_def split: if_splits)

lemma fit_transform_row:
  assumes "fit_transform an raw = Inr X" and "i < length raw"
  shows "X ! i = normalize_row (map (\<lambda>t. real (count_list (an (raw ! i)) t) * idf (map an raw) t)
                                (vocabulary (map an raw)))"
  using assms by (auto simp: fit_transform_def Let_def split: if_splits)

lemma tfidf_row_nonneg:
  "\<forall>x \<in> set (map (\<lambda>t. real (count_list d t) * idf docs t) vocab). 0 \<le> x"
proof -
  have "0 \<le> real (count_list d t) * idf docs t" for t
    using idf_ge_1 [of docs t] by simp
  then show ?thesis by simp
qed

lemma tfidf_row_zero_iff:
  assumes "d \<in> set docs"
  shows "(\<forall>x \<in> set (map (\<lambda>t. real (count_list d t) * idf docs t) (vocabulary docs)). x = 0) \<longleftrightarrow> d = []"
proof
  assume z: "\<forall>x \<in> set (map (\<lambda>t. real (count_list d t) * idf docs t) (vocabulary docs)). x = 0"
  show "d = []"
  proof (rule ccontr)
    assume "d \<noteq> []"
    then obtain t where t: "t \<in> set d" by (cases d) auto
    with assms have "t \<in> set (vocabulary docs)" by (auto simp: set_vocabulary)
    with z have "real (count_list d t) * idf docs t = 0" by simp
    moreover have "idf docs t \<noteq> 0" using idf_ge_1 [of docs t] by simp
    ultimately have "count_list d t = 0" by simp
    with t show False by (simp add: count_list_0_iff)
  qed
next
  assume "d = []"
  then show "\<forall>x \<in> set (map (\<lambda>t. real (count_list d t) * idf docs t) (vocabulary docs)). x = 0"
    by simp
qed

lemma normalize_row_zero_iff:
  "(\<forall>x \<in> set (normalize_row v). x = 0) \<longleftrightarrow> (\<forall>x \<in> set v. x = 0)"
proof (cases "l2_norm v = 0")
  case True
  then show ?thesis by (simp add: normalize_row_def)
next
  case False
  then have "l2_norm (normalize_row v) \<noteq> 0" by (simp add: l2_norm_normalize)
  with False show ?thesis by (simp only: l2_norm_zero_iff)
qed

lemma engine_similarity_entry:
  assumes "RecommendationEngine an fr rs = Inr e"
    and "i < length (movies_df e)" and "j < length (movies_df e)"
  obtains X where "fit_transform an (map genres_text (map snd fr)) = Inr X"
    and "length X = length fr" and "length (movies_df e) = length fr"
    and "content_similarity_matrix e ! i ! j = dot (normalize_row (X ! i)) (normalize_row (X ! j))"
proof -
  from assms(1) obtain X where X: "fit_transform an (map genres_text (map fillna (map snd fr))) = Inr X"
    and mdf: "movies_df e = map fillna (map snd fr)"
    and c: "content_similarity_matrix e = cosine_similarity X"
    by (rule engine_fields)
  have gm: "map genres_text (map fillna (map snd fr)) = map genres_text (map snd fr)" by simp
  from fit_transform_length [OF X] have len: "length X = length fr" by simp
  have m: "length (movies_df e) = length fr" by (simp add: mdf)
  from assms(2,3) m len have "i < length X" "j < length X" by simp_all
  then have "content_similarity_matrix e ! i ! j = dot (normalize_row (X ! i)) (normalize_row (X ! j))"
    unfolding c by (rule cosine_similarity_entry)
  with X len m show thesis unfolding gm by (rule that)
qed

lemma similarity_entry_facts:
  assumes "RecommendationEngine an fr rs = Inr e"
    and "i < length (movies_df e)" and "j < length (movies_df e)"
  shows "content_similarity_matrix e ! i ! j = content_similarity_matrix e ! j ! i
       \<and> 0 \<le> content_similarity_matrix e ! i ! j
       \<and> content_similarity_matrix e ! i ! j \<le> 1
       \<and> content_similarity_matrix e ! i ! i
           = (if an (genres_text (movies_df e ! i)) = [] then 0 else 1)"
proof -
  define ms where "ms = map snd fr"
  from assms obtain X where X: "fit_transform an (map genres_text ms) = Inr X"
    and len: "length X = length fr" and m: "length (movies_df e) = length fr"
    and ij: "content_similarity_matrix e ! i ! j = dot (normalize_row (X ! i)) (normalize_row (X ! j))"
    unfolding ms_def by (rule engine_similarity_entry)
  from assms(1,3,2) obtain X' where X': "fit_transform an (map genres_text ms) = Inr X'"
    and ji: "content_similarity_matrix e ! j ! i = dot (normalize_row (X' ! j)) (normalize_row (X' ! i))"
    unfolding ms_def by (rule engine_similarity_entry)
  from assms(1,2,2) obtain X'' where X'': "fit_transform an (map genres_text ms) = Inr X''"
    and ii: "content_similarity_matrix e ! i ! i = dot (normalize_row (X'' ! i)) (normalize_row (X'' ! i))"
    unfolding ms_def by (rule engine_similarity_entry)
  from X X' X'' have same: "X' = X" "X'' = X" by simp_all
  have lms: "length ms = length fr" by (simp add: ms_def)
  let ?docs = "map an (map genres_text ms)"
  have row: "X ! k = normalize_row (map (\<lambda>t. real (count_list (?docs ! k) t) * idf ?docs t) (vocabulary ?docs))"
    if "k < length ms" for k
    using fit_transform_row [OF X, of k] that by simp
  have nonneg: "\<forall>x \<in> set (normalize_row (X ! k)). 0 \<le> x" if "k < length ms" for k
    unfolding row [OF that]
    by (rule normalize_row_nonneg, rule normalize_row_nonneg, rule tfidf_row_nonneg)
  have 1: "content_similarity_matrix e ! i ! j = content_similarity_matrix e ! j ! i"
    unfolding ij ji same by (rule dot_commute)
  have 2: "0 \<le> content_similarity_matrix e ! i ! j"
    unfolding ij using assms(2,3) m lms by (intro dot_nonneg nonneg) simp_all
  have 3: "content_similarity_matrix e ! i ! j \<le> 1"
    unfolding ij by (rule dot_normalize_le_1)
  have i: "i < length ms" using assms(2) m lms by simp
  from assms(1) have mdf: "movies_df e = map fillna ms"
    unfolding ms_def by (rule engine_movies)
  have gi: "genres_text (movies_df e ! i) = genres_text (ms ! i)"
    using i by (simp add: mdf)
  have di: "?docs ! i = an (genres_text (ms ! i))" using i by simp
  have "?docs ! i \<in> set ?docs" using i by (simp only: nth_mem length_map)
  then have "(\<forall>x \<in> set (X ! i). x = 0) \<longleftrightarrow> ?docs ! i = []"
    unfolding row [OF i] normalize_row_zero_iff by (rule tfidf_row_zero_iff)
  then have 4: "content_similarity_matrix e ! i ! i
           = (if an (genres_text (movies_df e ! i)) = [] then 0 else 1)"
    unfolding ii same dot_normalize_self gi di by simp
  from 1 2 3 4 show ?thesis by (intro conjI)
qed




lemma construction_isl_iff:
  "isl (RecommendationEngine an fr rs) \<longleftrightarrow> (\<forall>m \<in> snd ` set fr. an (genres_text m) = [])"
proof -
  have "isl (RecommendationEngine an fr rs)
          \<longleftrightarrow> isl (fit_transform an (map genres_text (map (fillna \<circ> snd) fr)))"
    by (simp add: RecommendationEngine_def Let_def split: sum.splits)
  then show ?thesis by (simp add: fit_transform_fails_iff)
qed

text \<open>
  C2, amended. Construction checks neither the ids of the catalog nor the ratings. It
  raises \<^verbatim>\<open>ValueError\<close> exactly when no movie's genre text yields a token (the vectorizer's
  empty vocabulary); for every other catalog, whatever its ids and whatever the ratings
  (none at all included), it yields an engine holding that catalog and those ratings.
\<close>

theorem construction_fails_only_on_empty_vocabulary:
  "(if \<forall>m \<in> snd ` set fr. an (genres_text m) = []
    then RecommendationEngine an fr rs = Inl ValueError
    else \<exists>e. RecommendationEngine an fr rs = Inr e \<and> movies_df e = map fillna (map snd fr)
               \<and> movies_index e = map fst fr \<and> ratings_df e = rs)"
proof (cases "\<forall>m \<in> snd ` set fr. an (genres_text m) = []")
  case True
  then have "isl (fit_transform an (map genres_text (map (fillna \<circ> snd) fr)))"
    by (simp add: fit_transform_fails_iff)
  then obtain err where err: "fit_transform an (map genres_text (map (fillna \<circ> snd) fr)) = Inl err"
    by (cases "fit_transform an (map genres_text (map (fillna \<circ> snd) fr))") auto
  from fit_transform_error [OF err] err True show ?thesis
    by (simp add: RecommendationEngine_def Let_def)
next
  case False
  then have "\<not> isl (fit_transform an (map genres_text (map (fillna \<circ> snd) fr)))"
    by (simp add: fit_transform_fails_iff)
  then obtain X where X: "fit_transform an (map genres_text (map (fillna \<circ> snd) fr)) = Inr X"
    by (cases "fit_transform an (map genres_text (map (fillna \<circ> snd) fr))") auto
  with False show ?thesis
    by (simp add: RecommendationEngine_def Let_def)
qed

lemma analyze_Drama: "sample_analyzer ''Drama'' = [''drama'']"
  unfolding sample_analyzer_def by code_simp

lemma analyze_empty: "sample_analyzer [] = []"
  by (simp add: sample_analyzer_def analyze_def)

lemma range_index_set: "snd ` set (range_index rows) = set rows"
  using range_index_rows [of rows] by (metis set_map)

theorem construction_fails_only_on_empty_vocabulary_witness:
  "(\<exists>e. RecommendationEngine sample_analyzer (range_index duplicate_movies) [] = Inr e
         \<and> movies_df e = map fillna duplicate_movies \<and> ratings_df e = [])
   \<and> RecommendationEngine sample_analyzer (range_index [sample_movies ! 2]) sample_ratings
       = Inl ValueError"
proof -
  have a: "\<not> (\<forall>m \<in> snd ` set (range_index duplicate_movies). sample_analyzer (genres_text m) = [])"
    unfolding range_index_set by (simp add: duplicate_movies_def genres_text_def analyze_Drama)
  have b: "\<forall>m \<in> snd ` set (range_index [sample_movies ! 2]). sample_analyzer (genres_text m) = []"
    unfolding range_index_set by (simp add: sample_movies_def genres_text_def analyze_empty)
  from a construction_fails_only_on_empty_vocabulary [of "range_index duplicate_movies" sample_analyzer "[]"]
  have "\<exists>e. RecommendationEngine sample_analyzer (range_index duplicate_movies) [] = Inr e
         \<and> movies_df e = map fillna (map snd (range_index duplicate_movies))
         \<and> movies_index e = map fst (range_index duplicate_movies) \<and> ratings_df e = []"
    by (simp only: if_False)
  then have 1: "\<exists>e. RecommendationEngine sample_analyzer (range_index duplicate_movies) [] = Inr e
         \<and> movies_df e = map fillna duplicate_movies \<and> ratings_df e = []"
    unfolding range_index_rows by blast
  from b construction_fails_only_on_empty_vocabulary
         [of "range_index [sample_movies ! 2]" sample_analyzer sample_ratings]
  have 2: "RecommendationEngine sample_analyzer (range_index [sample_movies ! 2]) sample_ratings
             = Inl ValueError"
    by (simp only: if_True)
  from 1 2 show ?thesis by (rule conjI)
qed

theorem construction_accepts_duplicate_ids:
  "\<not> distinct (map movieId duplicate_movies)
   \<and> \<not> isl (RecommendationEngine sample_analyzer (range_index duplicate_movies) sample_ratings)
   \<and> \<not> isl (RecommendationEngine sample_analyzer (range_index sample_movies) [])"
proof -
  have "\<not> distinct (map movieId duplicate_movies)"
    by (simp add: duplicate_movies_def)
  moreover have "\<not> isl (RecommendationEngine sample_analyzer (range_index duplicate_movies) sample_ratings)"
    unfolding construction_isl_iff range_index_set
    by (simp add: duplicate_movies_def genres_text_def analyze_Drama)
  moreover have "\<not> isl (RecommendationEngine sample_analyzer (range_index sample_movies) [])"
    by (simp add: sample_engine_constructs)
  ultimately show ?thesis by blast
qed

section \<open>Content-based recommendations: results\<close>

lemma content_based_unknown:
  "movie_id \<notin> movieId ` set (movies_df e) \<Longrightarrow>
     content_based_recommendations e movie_id n = get_popular_movies e n"
  by (simp add: content_based_recommendations_def matching_labels_empty)

text \<open>
  C3. For a movie id that no row of the catalog carries, \<^verbatim>\<open>content_based_recommendations\<close>
  returns the table of \<^verbatim>\<open>_get_popular_movies\<close> for the same \<open>n\<close>: the same rows in the same
  order with the same scores. This holds for every engine and every \<open>n\<close>, negative ones
  included.
\<close>

theorem content_based_unknown_id_is_popular:
  "movie_id \<notin> movieId ` set (movies_df e) \<Longrightarrow>
     content_based_recommendations e movie_id n = get_popular_movies e n"
  by (rule content_based_unknown)

theorem content_based_unknown_id_is_popular_witness:
  "7 \<notin> movieId ` set (movies_df (sample_engine sample_ratings))
   \<and> content_based_recommendations (sample_engine sample_ratings) 7 5
       = get_popular_movies (sample_engine sample_ratings) 5"
proof -
  have a: "7 \<notin> movieId ` set (movies_df (sample_engine sample_ratings))"
    by (simp add: sample_movies_df)
  from a content_based_unknown_id_is_popular [OF a, of 5] show ?thesis by blast
qed

lemma selected_index_bound:
  assumes "p \<in> set (slice_from1 k (sorted_desc f (enumerate 0 row)))"
  shows "fst p < length row"
proof -
  from assms set_slice_from1 [of k "sorted_desc f (enumerate 0 row)"]
  have "p \<in> set (sorted_desc f (enumerate 0 row))" by (rule subsetD [rotated])
  then have "p \<in> set (enumerate 0 row)" by (simp only: set_sorted_desc)
  then show ?thesis by (simp add: in_set_enumerate_eq)
qed

lemma content_based_row:
  assumes "RecommendationEngine an fr rs = Inr e"
    and "matching_labels (movies_index e) (movies_df e) movie_id = l # rest"
    and "matrix_row (content_similarity_matrix e) l = Some row"
  shows "content_based_recommendations e movie_id n
           = map (\<lambda>(j, s). \<lparr>rec_movie = movies_df e ! j, similarity_score = s, rec_stats = None\<rparr>)
               (slice_from1 (n + 1) (sorted_desc snd (enumerate 0 row)))"
proof -
  define sel where "sel = slice_from1 (n + 1) (sorted_desc snd (enumerate 0 row))"
  from matrix_row_Some [OF assms(3)] obtain i
    where i: "i < length (content_similarity_matrix e)" and row: "row = content_similarity_matrix e ! i"
    by blast
  from i have i': "i < length (movies_df e)" by (simp only: engine_matrix_shape(1) [OF assms(1)])
  have len: "length row = length (movies_df e)"
    unfolding row using engine_matrix_shape(2) [OF assms(1) i'] .
  have bound: "fst p < length (movies_df e)" if "p \<in> set sel" for p
    using that selected_index_bound [of p "n + 1" snd row] len
    by (simp only: sel_def)
  have inb: "\<not> (\<exists>j \<in> set (map fst sel). length (movies_df e) \<le> j)"
  proof
    assume "\<exists>j \<in> set (map fst sel). length (movies_df e) \<le> j"
    then obtain j where j: "j \<in> set (map fst sel)" "length (movies_df e) \<le> j" by (rule bexE)
    from j(1) obtain p where "p \<in> set sel" "j = fst p" by (auto simp only: set_map)
    with bound [of p] j(2) show False by simp
  qed
  show ?thesis
    unfolding content_based_recommendations_def assms(2,3) Let_def list.case option.case
      sel_def [symmetric]
    using inb by (simp only: if_False)
qed

lemma content_based_cases:
  assumes "RecommendationEngine an fr rs = Inr e"
  obtains (fallback) "\<And>k. content_based_recommendations e movie_id k = get_popular_movies e k"
  | (row) i where "i < length (movies_df e)"
      and "\<And>k. content_based_recommendations e movie_id k
           = map (\<lambda>(j, s). \<lparr>rec_movie = movies_df e ! j, similarity_score = s, rec_stats = None\<rparr>)
               (slice_from1 (k + 1) (sorted_desc snd (enumerate 0 (content_similarity_matrix e ! i))))"
proof (cases "matching_labels (movies_index e) (movies_df e) movie_id")
  case Nil
  then have "content_based_recommendations e movie_id k = get_popular_movies e k" for k
    by (simp add: content_based_recommendations_def)
  then show thesis by (rule fallback)
next
  case (Cons l rest)
  show thesis
  proof (cases "matrix_row (content_similarity_matrix e) l")
    case None
    with Cons have "content_based_recommendations e movie_id k = get_popular_movies e k" for k
      by (simp add: content_based_recommendations_def)
    then show thesis by (rule fallback)
  next
    case (Some r)
    from matrix_row_Some [OF Some] obtain i
      where i: "i < length (content_similarity_matrix e)" and r: "r = content_similarity_matrix e ! i"
      by blast
    from i have "i < length (movies_df e)" by (simp only: engine_matrix_shape(1) [OF assms])
    then show thesis
      using content_based_row [OF assms Cons Some] unfolding r by (rule row)
  qed
qed

text \<open>
  On a catalog with the default index the label of the first matching row is its position,
  and a movie of the catalog gets \<open>min n (|catalog| - 1)\<close> rows.
\<close>

lemma matching_labels_range:
  assumes "l \<in> set (matching_labels (map int [0..<length ms]) ms movie_id)"
  shows "0 \<le> l \<and> l < int (length ms)"
proof -
  from assms obtain m where "(l, m) \<in> set (zip (map int [0..<length ms]) ms)"
    by (auto simp: matching_labels_def)
  then have "l \<in> set (map int [0..<length ms])" by (rule set_zip_leftD)
  then show ?thesis by auto
qed

lemma matching_labels_nonempty:
  assumes "movie_id \<in> movieId ` set ms" and "length labels = length ms"
  shows "matching_labels labels ms movie_id \<noteq> []"
proof -
  define F where "F = filter (\<lambda>(l, m). movieId m = movie_id) (zip labels ms)"
  from assms(1) obtain i where i: "i < length ms" "movieId (ms ! i) = movie_id"
    by (auto simp: in_set_conv_nth)
  with assms(2) have "(labels ! i, ms ! i) \<in> set (zip labels ms)"
    by (auto simp: set_zip)
  with i(2) have "(labels ! i, ms ! i) \<in> set F"
    by (simp add: F_def)
  then have "F \<noteq> []" by auto
  then show ?thesis by (simp add: matching_labels_def F_def)
qed

lemma content_based_length_default_index:
  assumes "RecommendationEngine an (range_index ms) rs = Inr e"
    and "movie_id \<in> movieId ` set (movies_df e)"
    and "0 \<le> n"
  shows "length (content_based_recommendations e movie_id n)
           = min (nat n) (length (movies_df e) - 1)"
proof -
  have idx: "movies_index e = map int [0..<length (movies_df e)]"
    using assms(1) by (rule engine_fields) (simp add: range_index_labels range_index_rows)
  from assms(2) have "matching_labels (movies_index e) (movies_df e) movie_id \<noteq> []"
    by (rule matching_labels_nonempty) (simp add: idx)
  then obtain l rest where ml: "matching_labels (movies_index e) (movies_df e) movie_id = l # rest"
    by (cases "matching_labels (movies_index e) (movies_df e) movie_id") auto
  then have "l \<in> set (matching_labels (map int [0..<length (movies_df e)]) (movies_df e) movie_id)"
    by (simp add: idx)
  then have l: "0 \<le> l" "l < int (length (movies_df e))"
    using matching_labels_range by blast+
  then have i: "nat l < length (movies_df e)" by simp
  have "matrix_row (content_similarity_matrix e) (int (nat l))
          = Some (content_similarity_matrix e ! nat l)"
    using i by (intro matrix_row_position) (simp only: engine_matrix_shape(1) [OF assms(1)])
  then have mr: "matrix_row (content_similarity_matrix e) l = Some (content_similarity_matrix e ! nat l)"
    using l(1) by simp
  have len: "length (content_similarity_matrix e ! nat l) = length (movies_df e)"
    using engine_matrix_shape(2) [OF assms(1) i] .
  show ?thesis
    unfolding content_based_row [OF assms(1) ml mr] length_map
    using assms(3) by (simp add: length_slice_from1 len)
qed

text \<open>
  C10. The code takes the index label of the movie's row (\<^verbatim>\<open>.index[0]\<close>) and reads the
  similarity matrix at that label as a position. On the sample catalog after \<^verbatim>\<open>dropna\<close> has
  dropped its second row, the rows are labelled 0 and 2: the movie with id 3 is in the
  catalog, its label 2 is no position of the 2-by-2 matrix, the \<^verbatim>\<open>IndexError\<close> is caught and
  the answer is the popularity fallback, here no row at all, where
  \<open>min n (|catalog| - 1)\<close> is 1.
\<close>

theorem content_based_label_outside_matrix:
  "\<exists>e. RecommendationEngine sample_analyzer gapped_movies [] = Inr e
       \<and> movies_index e = [0, 2]
       \<and> map movieId (movies_df e) = [1, 3]
       \<and> content_based_recommendations e 3 1 = []
       \<and> min (nat 1) (length (movies_df e) - 1) = 1"
proof -
  have "\<not> isl (RecommendationEngine sample_analyzer gapped_movies [])"
    unfolding construction_isl_iff
    by (simp add: gapped_movies_def sample_movies_def genres_text_def analyze_Drama)
  then obtain e where e: "RecommendationEngine sample_analyzer gapped_movies [] = Inr e"
    by (cases "RecommendationEngine sample_analyzer gapped_movies []") auto
  have idx: "movies_index e = [0, 2]"
    using e by (rule engine_fields) (simp add: gapped_movies_def)
  have ms: "movies_df e =
     [\<lparr>movieId = 1, title = ''Heat'', genres = Some ''Drama'', year = Some 1995\<rparr>,
      \<lparr>movieId = 3, title = ''Rush'', genres = Some [], year = None\<rparr>]"
    using e by (rule engine_fields) (simp add: gapped_movies_def sample_movies_def fillna_def)
  have rs: "ratings_df e = []" using e by (rule engine_ratings)
  have len: "length (content_similarity_matrix e) = 2"
    using engine_matrix_shape(1) [OF e] by (simp add: ms)
  have "matching_labels (movies_index e) (movies_df e) 3 = [2]"
    by (simp add: matching_labels_def idx ms)
  moreover have "matrix_row (content_similarity_matrix e) 2 = None"
    by (simp add: matrix_row_def len)
  moreover have "get_popular_movies e 1 = []"
    by (simp add: get_popular_movies_def rs group_stats_def merge_movies_def sorted_desc_def
        slice_upto_def)
  ultimately have "content_based_recommendations e 3 1 = []"
    by (simp add: content_based_recommendations_def)
  with e idx ms show ?thesis by auto
qed

text \<open>
  C1. The slice \<^verbatim>\<open>[1:n+1]\<close> drops the first row of the stable descending sort, which is the
  queried movie only when no earlier catalog row reaches the same similarity. In the sample
  catalog the second movie has the genres of the first: queried with \<open>n = 1\<close>, it gets itself
  back as its only recommendation.
\<close>

theorem content_based_returns_queried_movie:
  "content_based_recommendations (sample_engine []) 2 1
     = [\<lparr>rec_movie = \<lparr>movieId = 2, title = ''Casino'', genres = Some ''Drama'', year = Some 1995\<rparr>,
         similarity_score = 1, rec_stats = None\<rparr>]"
  by (simp add: content_based_recommendations_def sample_engine_def matching_labels_def
      matrix_row_def sample_movies_def fillna_def enumerate_eq_zip upt_rec sorted_desc_def
      slice_from1_def slice_upto_def)

section \<open>The popularity fallback: results\<close>

lemma get_popular_movies_table: "get_popular_movies e n = slice_upto n (popular_table e)"
  by (simp add: get_popular_movies_def popular_table_def Let_def)

lemma group_stats_in:
  "(m, mn, cnt) \<in> set (group_stats rs) \<longleftrightarrow>
     m \<in> r_movieId ` set rs \<and> mn = mean (map r_rating (filter (\<lambda>r. r_movieId r = m) rs))
     \<and> cnt = length (filter (\<lambda>r. r_movieId r = m) rs)"
  by (auto simp: group_stats_def Let_def)

lemma merge_movies_in:
  "(mv, mn, cnt) \<in> set (merge_movies avg ms) \<longleftrightarrow> mv \<in> set ms \<and> (movieId mv, mn, cnt) \<in> set avg"
  by (induction avg) (auto simp: merge_movies_def)

lemma qualifying_in:
  assumes "(mv, mn, cnt) \<in> set (merge_movies (filter (\<lambda>(m, mn, cnt). 10 \<le> cnt) (group_stats (ratings_df e))) (movies_df e))"
  shows "mv \<in> set (movies_df e)" "mn = mean (ratings_of e (movieId mv))"
    "cnt = length (ratings_of e (movieId mv))" "10 \<le> cnt"
  using assms by (auto simp: merge_movies_in group_stats_in ratings_of_def)

lemma popular_table_row:
  assumes "r \<in> set (popular_table e)"
  shows "rec_movie r \<in> set (movies_df e)"
    and "similarity_score r = mean (ratings_of e (rec_id r)) / 5"
    and "rec_stats r = Some (mean (ratings_of e (rec_id r)), length (ratings_of e (rec_id r)))"
    and "10 \<le> length (ratings_of e (rec_id r))"
proof -
  from assms obtain mv mn cnt where
    r: "r = \<lparr>rec_movie = mv, similarity_score = mn / 5, rec_stats = Some (mn, cnt)\<rparr>"
    and q: "(mv, mn, cnt) \<in> set (merge_movies (filter (\<lambda>(m, mn, cnt). 10 \<le> cnt) (group_stats (ratings_df e))) (movies_df e))"
    by (auto simp: popular_table_def)
  note f = qualifying_in [OF q]
  show "rec_movie r \<in> set (movies_df e)" using f(1) by (simp add: r)
  show "similarity_score r = mean (ratings_of e (rec_id r)) / 5" using f(2) by (simp add: r rec_id_def)
  show "rec_stats r = Some (mean (ratings_of e (rec_id r)), length (ratings_of e (rec_id r)))"
    using f(2,3) by (simp add: r rec_id_def)
  show "10 \<le> length (ratings_of e (rec_id r))" using f(3,4) by (simp add: r rec_id_def)
qed

lemma sorted_desc_sorted: "sorted_wrt (\<lambda>a b. f b \<le> f a) (sorted_desc f xs)"
proof -
  have "sorted (map (\<lambda>x. - f x) (sort_key (\<lambda>x. - f x) xs))" by (rule sorted_sort_key)
  then show ?thesis by (simp add: sorted_desc_def sorted_map)
qed

lemma popular_table_sorted:
  "sorted_wrt (\<lambda>a b. similarity_score b \<le> similarity_score a) (popular_table e)"
proof -
  have "sorted_wrt (\<lambda>a b. (case b of (mv, mn, cnt) \<Rightarrow> mn) \<le> (case a of (mv, mn, cnt) \<Rightarrow> mn))
          (sorted_desc (\<lambda>(mv, mn, cnt). mn)
             (merge_movies (filter (\<lambda>(m, mn, cnt). 10 \<le> cnt) (group_stats (ratings_df e))) (movies_df e)))"
    by (rule sorted_desc_sorted)
  then show ?thesis
    unfolding popular_table_def sorted_wrt_map
    by (rule sorted_wrt_mono_rel [rotated]) (auto)
qed

lemma sorted_wrt_slice_upto: "sorted_wrt P xs \<Longrightarrow> sorted_wrt P (slice_upto n xs)"
  by (simp add: slice_upto_def sorted_wrt_take)

lemma slice_upto_all: "int (length xs) \<le> n \<Longrightarrow> slice_upto n xs = xs"
  by (simp add: slice_upto_def)

lemma mset_concat_filter:
  "distinct ks \<Longrightarrow>
     mset (concat (map (\<lambda>k. filter (\<lambda>x. f x = k) xs) ks)) = mset (filter (\<lambda>x. f x \<in> set ks) xs)"
proof (induction ks)
  case Nil
  then show ?case by simp
next
  case (Cons k ks)
  have "mset (filter (\<lambda>x. f x \<in> set (k # ks)) xs)
          = mset (filter (\<lambda>x. f x = k) xs) + mset (filter (\<lambda>x. f x \<in> set ks) xs)"
    using Cons.prems by (induction xs) auto
  with Cons show ?case by simp
qed

lemma map_fst_merge_movies:
  "map fst (merge_movies avg ms) = concat (map (\<lambda>k. filter (\<lambda>mv. movieId mv = k) ms) (map fst avg))"
  by (induction avg) (auto simp: merge_movies_def comp_def)

lemma distinct_group_keys: "distinct (map fst (group_stats rs))"
  by (simp add: group_stats_def Let_def comp_def)

lemma group_keys_filter:
  "set (map fst (filter (\<lambda>(m, mn, cnt). 10 \<le> cnt) (group_stats rs)))
     = {m. 10 \<le> length (filter (\<lambda>r. r_movieId r = m) rs)}"
proof -
  have "m \<in> r_movieId ` set rs" if "10 \<le> length (filter (\<lambda>r. r_movieId r = m) rs)" for m
  proof -
    from that have "filter (\<lambda>r. r_movieId r = m) rs \<noteq> []" by auto
    then obtain r where "r \<in> set (filter (\<lambda>r. r_movieId r = m) rs)" by (meson last_in_set)
    then show ?thesis by auto
  qed
  then show ?thesis by (force simp: group_stats_in)
qed

lemma popular_table_movies:
  "mset (map rec_movie (popular_table e))
     = mset (filter (\<lambda>mv. 10 \<le> length (ratings_of e (movieId mv))) (movies_df e))"
proof -
  let ?A = "filter (\<lambda>(m, mn, cnt). 10 \<le> cnt) (group_stats (ratings_df e))"
  have "map rec_movie (popular_table e) = map fst (sorted_desc (\<lambda>(mv, mn, cnt). mn) (merge_movies ?A (movies_df e)))"
    by (simp add: popular_table_def comp_def case_prod_unfold)
  then have "mset (map rec_movie (popular_table e)) = mset (map fst (merge_movies ?A (movies_df e)))"
    by (simp add: sorted_desc_def)
  also have "\<dots> = mset (filter (\<lambda>mv. movieId mv \<in> set (map fst ?A)) (movies_df e))"
    unfolding map_fst_merge_movies
    by (rule mset_concat_filter) (simp add: distinct_map_filter distinct_group_keys)
  also have "\<dots> = mset (filter (\<lambda>mv. 10 \<le> length (ratings_of e (movieId mv))) (movies_df e))"
    unfolding group_keys_filter by (simp add: ratings_of_def)
  finally show ?thesis .
qed

lemma in_set_slice_upto: "r \<in> set (slice_upto n xs) \<Longrightarrow> r \<in> set xs"
  using set_slice_upto [of n xs] by blast

text \<open>
  C5. For every engine and every \<open>n\<close>, each row of \<^verbatim>\<open>_get_popular_movies(n)\<close> is a catalog
  movie backed by at least 10 ratings, with \<^verbatim>\<open>similarity_score\<close> equal to the mean of its
  ratings divided by 5; the rows are in descending order of mean rating; and when fewer than
  \<open>n\<close> catalog rows meet the threshold, the movies of the result are exactly those rows
  (as a multiset: nothing is added and nothing is left out).
\<close>

theorem popular_movies_properties:
  "(\<forall>r \<in> set (get_popular_movies e n).
       rec_movie r \<in> set (movies_df e)
       \<and> 10 \<le> length (ratings_of e (rec_id r))
       \<and> similarity_score r = mean (ratings_of e (rec_id r)) / 5)
   \<and> sorted_wrt (\<lambda>a b. mean (ratings_of e (rec_id b)) \<le> mean (ratings_of e (rec_id a)))
        (get_popular_movies e n)
   \<and> (int (length (filter (\<lambda>mv. 10 \<le> length (ratings_of e (movieId mv))) (movies_df e))) < n \<longrightarrow>
        mset (map rec_movie (get_popular_movies e n))
          = mset (filter (\<lambda>mv. 10 \<le> length (ratings_of e (movieId mv))) (movies_df e)))"
proof (intro conjI ballI impI)
  fix r assume "r \<in> set (get_popular_movies e n)"
  then have r: "r \<in> set (popular_table e)"
    unfolding get_popular_movies_table by (rule in_set_slice_upto)
  from popular_table_row [OF r]
  show "rec_movie r \<in> set (movies_df e)"
    and "10 \<le> length (ratings_of e (rec_id r))"
    and "similarity_score r = mean (ratings_of e (rec_id r)) / 5"
    by simp_all
next
  have "sorted_wrt (\<lambda>a b. similarity_score b \<le> similarity_score a) (popular_table e)"
    by (rule popular_table_sorted)
  then have "sorted_wrt (\<lambda>a b. mean (ratings_of e (rec_id b)) \<le> mean (ratings_of e (rec_id a)))
               (popular_table e)"
  proof (rule sorted_wrt_mono_rel [rotated])
    fix a b
    assume "a \<in> set (popular_table e)" "b \<in> set (popular_table e)"
      and "similarity_score b \<le> similarity_score a"
    then show "mean (ratings_of e (rec_id b)) \<le> mean (ratings_of e (rec_id a))"
      by (simp add: popular_table_row(2))
  qed
  then show "sorted_wrt (\<lambda>a b. mean (ratings_of e (rec_id b)) \<le> mean (ratings_of e (rec_id a)))
               (get_popular_movies e n)"
    unfolding get_popular_movies_table by (rule sorted_wrt_slice_upto)
next
  assume few: "int (length (filter (\<lambda>mv. 10 \<le> length (ratings_of e (movieId mv))) (movies_df e))) < n"
  have "length (popular_table e) = length (map rec_movie (popular_table e))" by simp
  also have "\<dots> = size (mset (map rec_movie (popular_table e)))" by (simp only: size_mset)
  also have "\<dots> = length (filter (\<lambda>mv. 10 \<le> length (ratings_of e (movieId mv))) (movies_df e))"
    unfolding popular_table_movies by (simp only: size_mset)
  finally have "int (length (popular_table e)) \<le> n" using few by simp
  then have "get_popular_movies e n = popular_table e"
    unfolding get_popular_movies_table by (rule slice_upto_all)
  then show "mset (map rec_movie (get_popular_movies e n))
          = mset (filter (\<lambda>mv. 10 \<le> length (ratings_of e (movieId mv))) (movies_df e))"
    by (simp only: popular_table_movies)
qed

lemma sample_ratings_rows:
  "sample_ratings =
     [\<lparr>r_userId = 1, r_movieId = 1, r_rating = 4, r_timestamp = None\<rparr>,
      \<lparr>r_userId = 2, r_movieId = 1, r_rating = 4, r_timestamp = None\<rparr>,
      \<lparr>r_userId = 3, r_movieId = 1, r_rating = 4, r_timestamp = None\<rparr>,
      \<lparr>r_userId = 4, r_movieId = 1, r_rating = 4, r_timestamp = None\<rparr>,
      \<lparr>r_userId = 5, r_movieId = 1, r_rating = 4, r_timestamp = None\<rparr>,
      \<lparr>r_userId = 6, r_movieId = 1, r_rating = 4, r_timestamp = None\<rparr>,
      \<lparr>r_userId = 7, r_movieId = 1, r_rating = 4, r_timestamp = None\<rparr>,
      \<lparr>r_userId = 8, r_movieId = 1, r_rating = 4, r_timestamp = None\<rparr>,
      \<lparr>r_userId = 9, r_movieId = 1, r_rating = 4, r_timestamp = None\<rparr>,
      \<lparr>r_userId = 10, r_movieId = 1, r_rating = 4, r_timestamp = None\<rparr>,
      \<lparr>r_userId = 1, r_movieId = 2, r_rating = 5, r_timestamp = None\<rparr>,
      \<lparr>r_userId = 2, r_movieId = 2, r_rating = 3, r_timestamp = None\<rparr>,
      \<lparr>r_userId = 11, r_movieId = 2, r_rating = 2, r_timestamp = None\<rparr>]"
  by (simp add: sample_ratings_def upto.simps)

lemma sample_group_stats: "group_stats sample_ratings = [(1, 4, 10), (2, 10 / 3, 3)]"
  by (simp add: sample_ratings_rows group_stats_def mean_def)

lemma sample_popular_table:
  "popular_table (sample_engine sample_ratings)
     = [\<lparr>rec_movie = \<lparr>movieId = 1, title = ''Heat'', genres = Some ''Drama'', year = Some 1995\<rparr>,
         similarity_score = 4 / 5, rec_stats = Some (4, 10)\<rparr>]"
  unfolding popular_table_def sample_movies_df
  by (simp add: sample_engine_def sample_group_stats merge_movies_def sorted_desc_def)

lemma sample_ratings_of:
  "map (\<lambda>mv. length (ratings_of (sample_engine sample_ratings) (movieId mv)))
       (movies_df (sample_engine sample_ratings)) = [10, 3, 0]"
  unfolding sample_movies_df
  by (simp add: ratings_of_def sample_engine_def sample_ratings_rows)

theorem popular_movies_properties_witness:
  "get_popular_movies (sample_engine sample_ratings) 5
     = [\<lparr>rec_movie = \<lparr>movieId = 1, title = ''Heat'', genres = Some ''Drama'', year = Some 1995\<rparr>,
         similarity_score = 4 / 5, rec_stats = Some (4, 10)\<rparr>]
   \<and> int (length (filter (\<lambda>mv. 10 \<le> length (ratings_of (sample_engine sample_ratings) (movieId mv)))
                     (movies_df (sample_engine sample_ratings)))) < 5
   \<and> 10 \<le> length (ratings_of (sample_engine sample_ratings) 1)
   \<and> 4 / 5 = mean (ratings_of (sample_engine sample_ratings) 1) / 5
   \<and> mset (map rec_movie (get_popular_movies (sample_engine sample_ratings) 5))
       = mset (filter (\<lambda>mv. 10 \<le> length (ratings_of (sample_engine sample_ratings) (movieId mv)))
                 (movies_df (sample_engine sample_ratings)))"
proof -
  let ?r = "\<lparr>rec_movie = \<lparr>movieId = 1, title = ''Heat'', genres = Some ''Drama'', year = Some 1995\<rparr>,
             similarity_score = 4 / 5, rec_stats = Some (4, 10)\<rparr>"
  have a: "get_popular_movies (sample_engine sample_ratings) 5 = [?r]"
    by (simp add: get_popular_movies_table sample_popular_table slice_upto_def)
  have "length (filter (\<lambda>mv. 10 \<le> length (ratings_of (sample_engine sample_ratings) (movieId mv)))
                     (movies_df (sample_engine sample_ratings)))
          = length (filter (\<lambda>k. 10 \<le> k) (map (\<lambda>mv. length (ratings_of (sample_engine sample_ratings) (movieId mv)))
                     (movies_df (sample_engine sample_ratings))))"
    by (simp only: filter_map length_map comp_def)
  then have b: "int (length (filter (\<lambda>mv. 10 \<le> length (ratings_of (sample_engine sample_ratings) (movieId mv)))
                     (movies_df (sample_engine sample_ratings)))) < 5"
    by (simp add: sample_ratings_of)
  note p = popular_movies_properties [of "sample_engine sample_ratings" 5]
  have "?r \<in> set (get_popular_movies (sample_engine sample_ratings) 5)"
    by (simp only: a list.set_intros)
  with p have "10 \<le> length (ratings_of (sample_engine sample_ratings) (rec_id ?r))
      \<and> similarity_score ?r = mean (ratings_of (sample_engine sample_ratings) (rec_id ?r)) / 5"
    by blast
  then have c: "10 \<le> length (ratings_of (sample_engine sample_ratings) 1)
      \<and> 4 / 5 = mean (ratings_of (sample_engine sample_ratings) 1) / 5"
    by (simp add: rec_id_def)
  from p b have d: "mset (map rec_movie (get_popular_movies (sample_engine sample_ratings) 5))
       = mset (filter (\<lambda>mv. 10 \<le> length (ratings_of (sample_engine sample_ratings) (movieId mv)))
                 (movies_df (sample_engine sample_ratings)))"
    by blast
  from a b c d show ?thesis by blast
qed

section \<open>Recommendations for a user: results\<close>

















subsection \<open>A user with two ratings of one movie\<close>












section \<open>Hybrid recommendations: results\<close>

subsection \<open>The score dict\<close>

lemma dict_add_fresh: "k \<notin> fst ` set d \<Longrightarrow> dict_add d k v = d @ [(k, 0 + v)]"
  by (induction d) auto

lemma dict_add_zero:
  "dict_add d k 0 = (if k \<in> fst ` set d then d else d @ [(k, 0)])"
proof (induction d)
  case Nil
  then show ?case by simp
next
  case (Cons p d)
  obtain k' v' where p: "p = (k', v')" by (cases p)
  show ?case
  proof (cases "k' = k")
    case True
    then show ?thesis by (simp add: p)
  next
    case False
    then show ?thesis using Cons by (simp add: p)
  qed
qed

lemma add_scores_Nil [simp]: "add_scores w d [] = d"
  by (simp add: add_scores_def)

lemma add_scores_Cons [simp]:
  "add_scores w d (r # rs) = add_scores w (dict_add d (rec_id r) (w * similarity_score r)) rs"
  by (simp add: add_scores_def)

lemma add_scores_fresh:
  assumes "distinct (map rec_id recs)" and "rec_id ` set recs \<inter> fst ` set d = {}"
  shows "add_scores w d recs = d @ map (\<lambda>r. (rec_id r, w * similarity_score r)) recs"
  using assms
proof (induction recs arbitrary: d)
  case Nil
  then show ?case by simp
next
  case (Cons r recs)
  from Cons.prems have fresh: "rec_id r \<notin> fst ` set d" by auto
  have "rec_id ` set recs \<inter> fst ` set (d @ [(rec_id r, 0 + w * similarity_score r)]) = {}"
    using Cons.prems by auto
  with Cons.IH [of "d @ [(rec_id r, 0 + w * similarity_score r)]"] Cons.prems
  show ?case by (simp add: dict_add_fresh [OF fresh])
qed

lemma add_scores_zero_weight:
  "\<exists>zs. add_scores 0 d recs = d @ zs \<and> (\<forall>p \<in> set zs. snd p = 0)"
proof (induction recs arbitrary: d)
  case Nil
  then show ?case by simp
next
  case (Cons r recs)
  obtain z1 where z1: "dict_add d (rec_id r) 0 = d @ z1" "\<forall>p \<in> set z1. snd p = 0"
    by (cases "rec_id r \<in> fst ` set d") (auto simp: dict_add_zero)
  from Cons.IH [of "d @ z1"] obtain zs where
    zs: "add_scores 0 (d @ z1) recs = (d @ z1) @ zs" "\<forall>p \<in> set zs. snd p = 0" by blast
  have "add_scores 0 d (r # recs) = d @ (z1 @ zs)" by (simp add: z1 zs)
  moreover have "\<forall>p \<in> set (z1 @ zs). snd p = 0" using z1(2) zs(2) by auto
  ultimately show ?case by blast
qed

lemma dict_add_keys: "fst ` set (dict_add d k v) = insert k (fst ` set d)"
proof (induction d)
  case Nil
  then show ?case by simp
next
  case (Cons p d)
  obtain k' v' where p: "p = (k', v')" by (cases p)
  show ?case
  proof (cases "k' = k")
    case True
    then show ?thesis by (simp add: p)
  next
    case False
    then show ?thesis using Cons by (simp add: p insert_commute)
  qed
qed



subsection \<open>Catalog rows by id\<close>

lemma matching_rows_first:
  assumes "distinct (map movieId ms)" and "m \<in> set ms"
  shows "\<exists>rest. matching_rows ms (movieId m) = m # rest"
proof -
  from assms(2) have "matching_rows ms (movieId m) \<noteq> []"
    by (simp add: matching_rows_empty_iff)
  then obtain m' rest where mr: "matching_rows ms (movieId m) = m' # rest"
    by (cases "matching_rows ms (movieId m)") auto
  then have "m' \<in> set (matching_rows ms (movieId m))" by simp
  then have "m' \<in> set ms" "movieId m' = movieId m"
    using matching_rows_in by blast+
  from assms(1) have "inj_on movieId (set ms)" by (simp add: distinct_map)
  with \<open>m' \<in> set ms\<close> assms(2) \<open>movieId m' = movieId m\<close> have "m' = m"
    by (auto dest: inj_onD)
  with mr show ?thesis by blast
qed

lemma movie_row_member:
  assumes "distinct (map movieId (movies_df e))" and "m \<in> set (movies_df e)"
  shows "movie_row e (movieId m) s = [\<lparr>rec_movie = m, similarity_score = s, rec_stats = None\<rparr>]"
proof -
  from matching_rows_first [OF assms] obtain rest
    where "matching_rows (movies_df e) (movieId m) = m # rest" by blast
  then show ?thesis by (simp add: movie_row_def)
qed


lemma rows_of_recs:
  assumes "distinct (map movieId (movies_df e))" and "\<forall>r \<in> set recs. rec_movie r \<in> set (movies_df e)"
  shows "concat (map (\<lambda>(k, s). movie_row e k s) (map (\<lambda>r. (rec_id r, f r)) recs))
           = map (\<lambda>r. \<lparr>rec_movie = rec_movie r, similarity_score = f r, rec_stats = None\<rparr>) recs"
  using assms(2)
proof (induction recs)
  case Nil
  then show ?case by simp
next
  case (Cons r recs)
  then have "rec_movie r \<in> set (movies_df e)" by simp
  from movie_row_member [OF assms(1) this, of "f r"] Cons show ?case
    by (simp add: rec_id_def)
qed

subsection \<open>Sorting a sorted list\<close>

lemma sorted_desc_id:
  assumes "sorted_wrt (\<lambda>a b. f b \<le> f a) xs"
  shows "sorted_desc f xs = xs"
proof -
  from assms have "sorted (map (\<lambda>x. - f x) xs)" by (simp add: sorted_map)
  then show ?thesis unfolding sorted_desc_def by (rule sort_key_id_if_sorted)
qed

subsection \<open>The popular table\<close>

lemma popular_table_distinct:
  assumes "distinct (map movieId (movies_df e))"
  shows "distinct (map rec_id (popular_table e))"
proof -
  let ?F = "filter (\<lambda>mv. 10 \<le> length (ratings_of e (movieId mv))) (movies_df e)"
  have "map rec_id (popular_table e) = map movieId (map rec_movie (popular_table e))"
    by (simp add: rec_id_def comp_def)
  moreover have "mset (map movieId (map rec_movie (popular_table e))) = mset (map movieId ?F)"
    using popular_table_movies [of e] by (metis mset_map)
  moreover have "distinct (map movieId ?F)" using assms by (rule distinct_map_filter)
  ultimately show ?thesis by (metis mset_eq_imp_distinct_iff)
qed

lemma slice_upto_take: "0 \<le> n \<Longrightarrow> slice_upto n xs = take (nat n) xs"
  by (simp add: slice_upto_def)

lemma popular_take: "0 \<le> n \<Longrightarrow> get_popular_movies e n = take (nat n) (popular_table e)"
  by (simp add: get_popular_movies_table slice_upto_take)

lemma collaborative_no_seed:
  "collaborative_filtering_recommendations e [] k = get_popular_movies e k"
  by (simp add: collaborative_filtering_recommendations_def)

subsection \<open>Hybrid recommendations without seeds\<close>

lemma hybrid_no_seed:
  assumes "distinct (map movieId (movies_df e))" and "0 \<le> n" and "0 \<le> w"
  shows "hybrid_recommendations e [] n cw w
           = map (\<lambda>r. \<lparr>rec_movie = rec_movie r, similarity_score = w * similarity_score r,
                        rec_stats = None\<rparr>)
               (get_popular_movies e n)"
proof -
  let ?T = "popular_table e"
  let ?P2 = "take (nat (n * 2)) ?T"
  let ?g = "\<lambda>r. (rec_id r, w * similarity_score r)"
  let ?h = "\<lambda>r. \<lparr>rec_movie = rec_movie r, similarity_score = w * similarity_score r, rec_stats = None\<rparr>"
  have n2: "0 \<le> n * 2" using assms(2) by simp
  have P2: "collaborative_filtering_recommendations e [] (n * 2) = ?P2"
    by (simp only: collaborative_no_seed popular_take [OF n2])
  have "distinct (map rec_id ?T)" using assms(1) by (rule popular_table_distinct)
  then have dP2: "distinct (map rec_id ?P2)" by (simp add: take_map [symmetric] distinct_take)
  have d: "add_scores w [] ?P2 = map ?g ?P2"
    using add_scores_fresh [OF dP2, of "[]" w] by simp
  have "sorted_wrt (\<lambda>a b. similarity_score b \<le> similarity_score a) ?P2"
    using popular_table_sorted [of e] by (rule sorted_wrt_take)
  then have "sorted_wrt (\<lambda>a b. w * similarity_score b \<le> w * similarity_score a) ?P2"
    by (rule sorted_wrt_mono_rel [rotated]) (simp add: mult_left_mono assms(3))
  then have "sorted_wrt (\<lambda>a b. snd b \<le> snd a) (map ?g ?P2)"
    by (simp add: sorted_wrt_map)
  then have s: "sorted_desc snd (map ?g ?P2) = map ?g ?P2" by (rule sorted_desc_id)
  have "take (nat n) ?P2 = take (nat n) ?T"
    using assms(2) by (simp add: min_def nat_mult_distrib)
  then have t: "slice_upto n (map ?g ?P2) = map ?g (take (nat n) ?T)"
    by (simp add: slice_upto_take [OF assms(2)] take_map)
  have mem: "\<forall>r \<in> set (take (nat n) ?T). rec_movie r \<in> set (movies_df e)"
    using popular_table_row(1) by (auto dest: in_set_takeD)
  have rows: "concat (map (\<lambda>(k, s). movie_row e k s) (map ?g (take (nat n) ?T)))
                = map ?h (take (nat n) ?T)"
    using assms(1) mem by (rule rows_of_recs)
  have "hybrid_recommendations e [] n cw w
          = (if map ?h (take (nat n) ?T) \<noteq> [] then map ?h (take (nat n) ?T)
             else get_popular_movies e n)"
    unfolding hybrid_recommendations_def Let_def list.case P2 d s t rows ..
  also have "\<dots> = map ?h (get_popular_movies e n)"
    by (simp add: popular_take [OF assms(2)])
  finally show ?thesis .
qed

text \<open>
  C7, amended. With no seed the collaborative part is the popularity fallback for \<open>2n\<close>,
  and its rows go through the hybrid scoring like any others. For a catalog with unique ids,
  \<open>n \<ge> 0\<close> and a collaborative weight \<open>\<ge> 0\<close>, \<^verbatim>\<open>hybrid_recommendations([], n)\<close> lists the movies
  of \<^verbatim>\<open>_get_popular_movies(n)\<close> in the same order, each with the collaborative weight times its
  popularity score as \<^verbatim>\<open>similarity_score\<close>, and without the \<^verbatim>\<open>mean\<close> and \<^verbatim>\<open>count\<close> columns.
\<close>

theorem hybrid_without_seeds:
  assumes "distinct (map movieId (movies_df e))" and "0 \<le> n" and "0 \<le> collab_weight"
  shows "hybrid_recommendations e [] n content_weight collab_weight
           = map (\<lambda>r. \<lparr>rec_movie = rec_movie r,
                        similarity_score = collab_weight * similarity_score r,
                        rec_stats = None\<rparr>)
               (get_popular_movies e n)"
  using assms by (rule hybrid_no_seed)

lemma sample_distinct_ids: "distinct (map movieId (movies_df (sample_engine rs)))"
  by (simp add: sample_movies_df)

lemma sample_popular_1:
  "get_popular_movies (sample_engine sample_ratings) 1
     = [\<lparr>rec_movie = \<lparr>movieId = 1, title = ''Heat'', genres = Some ''Drama'', year = Some 1995\<rparr>,
         similarity_score = 4 / 5, rec_stats = Some (4, 10)\<rparr>]"
  by (simp add: get_popular_movies_table sample_popular_table slice_upto_def)

theorem hybrid_without_seeds_witness:
  "distinct (map movieId (movies_df (sample_engine sample_ratings)))
   \<and> (0::int) \<le> 1 \<and> (0::real) \<le> 4 / 10
   \<and> hybrid_recommendations (sample_engine sample_ratings) [] 1 (6 / 10) (4 / 10)
       = [\<lparr>rec_movie = \<lparr>movieId = 1, title = ''Heat'', genres = Some ''Drama'', year = Some 1995\<rparr>,
           similarity_score = 8 / 25, rec_stats = None\<rparr>]"
proof -
  have a: "distinct (map movieId (movies_df (sample_engine sample_ratings)))"
    by (rule sample_distinct_ids)
  have b: "(0::int) \<le> 1" and c: "(0::real) \<le> 4 / 10" by simp_all
  from hybrid_without_seeds [OF a b c, of "6 / 10"]
  have "hybrid_recommendations (sample_engine sample_ratings) [] 1 (6 / 10) (4 / 10)
       = [\<lparr>rec_movie = \<lparr>movieId = 1, title = ''Heat'', genres = Some ''Drama'', year = Some 1995\<rparr>,
           similarity_score = 8 / 25, rec_stats = None\<rparr>]"
    by (simp add: sample_popular_1)
  with a b c show ?thesis by (intro conjI)
qed

theorem hybrid_without_seeds_rescales_popular:
  "get_popular_movies (sample_engine sample_ratings) 1
     = [\<lparr>rec_movie = \<lparr>movieId = 1, title = ''Heat'', genres = Some ''Drama'', year = Some 1995\<rparr>,
         similarity_score = 4 / 5, rec_stats = Some (4, 10)\<rparr>]
   \<and> hybrid_recommendations (sample_engine sample_ratings) [] 1 (6 / 10) (4 / 10)
       = [\<lparr>rec_movie = \<lparr>movieId = 1, title = ''Heat'', genres = Some ''Drama'', year = Some 1995\<rparr>,
           similarity_score = 8 / 25, rec_stats = None\<rparr>]
   \<and> hybrid_recommendations (sample_engine sample_ratings) [] 1 (6 / 10) (4 / 10)
       \<noteq> get_popular_movies (sample_engine sample_ratings) 1"
proof -
  have "hybrid_recommendations (sample_engine sample_ratings) [] 1 (6 / 10) (4 / 10)
       = [\<lparr>rec_movie = \<lparr>movieId = 1, title = ''Heat'', genres = Some ''Drama'', year = Some 1995\<rparr>,
           similarity_score = 8 / 25, rec_stats = None\<rparr>]"
    using hybrid_no_seed [OF sample_distinct_ids, of 1 "4 / 10" sample_ratings "6 / 10"]
    by (simp add: sample_popular_1)
  then show ?thesis by (simp add: sample_popular_1)
qed

section \<open>Rankings and score bounds\<close>

subsection \<open>Means of bounded ratings\<close>

lemma mean_bounds:
  assumes "xs \<noteq> []" and "\<forall>x \<in> set xs. lo \<le> x \<and> x \<le> hi"
  shows "lo \<le> mean xs \<and> mean xs \<le> hi"
proof -
  have "lo * real (length xs) \<le> sum_list xs \<and> sum_list xs \<le> hi * real (length xs)"
    using assms(2) by (induction xs) (auto simp: algebra_simps)
  moreover have "0 < real (length xs)" using assms(1) by simp
  ultimately show ?thesis by (simp add: mean_def pos_le_divide_eq pos_divide_le_eq)
qed

lemma popular_table_score_bounds:
  assumes "r \<in> set (popular_table e)"
  shows "(\<forall>x \<in> set (ratings_df e). 0 \<le> r_rating x) \<longrightarrow> 0 \<le> similarity_score r"
    and "(\<forall>x \<in> set (ratings_df e). 0 \<le> r_rating x \<and> r_rating x \<le> 5) \<longrightarrow>
           0 \<le> similarity_score r \<and> similarity_score r \<le> 1"
proof -
  let ?xs = "ratings_of e (rec_id r)"
  from popular_table_row [OF assms] have s: "similarity_score r = mean ?xs / 5"
    and "10 \<le> length ?xs" by simp_all
  then have ne: "?xs \<noteq> []" by auto
  have sub: "set ?xs \<subseteq> r_rating ` set (ratings_df e)" by (auto simp: ratings_of_def)
  show "(\<forall>x \<in> set (ratings_df e). 0 \<le> r_rating x \<and> r_rating x \<le> 5) \<longrightarrow>
           0 \<le> similarity_score r \<and> similarity_score r \<le> 1"
  proof
    assume "\<forall>x \<in> set (ratings_df e). 0 \<le> r_rating x \<and> r_rating x \<le> 5"
    with sub have "\<forall>x \<in> set ?xs. 0 \<le> x \<and> x \<le> 5" by auto
    from mean_bounds [OF ne this] show "0 \<le> similarity_score r \<and> similarity_score r \<le> 1"
      by (simp add: s)
  qed
  show "(\<forall>x \<in> set (ratings_df e). 0 \<le> r_rating x) \<longrightarrow> 0 \<le> similarity_score r"
  proof
    assume a: "\<forall>x \<in> set (ratings_df e). 0 \<le> r_rating x"
    have "sum_list ?xs \<ge> 0"
      using a sub by (intro sum_list_nonneg) auto
    then show "0 \<le> similarity_score r" by (simp add: s mean_def)
  qed
qed

subsection \<open>The rows selected from a similarity row\<close>

lemma map_fst_enumerate: "map fst (enumerate 0 row) = [0..<length row]"
  by (simp add: enumerate_eq_zip)

lemma distinct_fst_sorted_desc:
  "distinct (map fst (sorted_desc f (enumerate 0 row)))"
proof -
  have "mset (sorted_desc f (enumerate 0 row)) = mset (enumerate 0 row)"
    unfolding sorted_desc_def by (rule mset_sort)
  then have "mset (map fst (sorted_desc f (enumerate 0 row))) = mset (map fst (enumerate 0 row))"
    by (simp only: mset_map)
  moreover have "distinct (map fst (enumerate 0 row))" by (simp add: map_fst_enumerate)
  ultimately show ?thesis by (metis mset_eq_imp_distinct_iff)
qed

lemma distinct_fst_selected:
  "distinct (map fst (slice_from1 k (sorted_desc f (enumerate 0 row))))"
  using distinct_fst_sorted_desc [of f row]
  by (simp add: slice_from1_def slice_upto_def drop_map [symmetric] take_map [symmetric]
      distinct_drop distinct_take del: drop_map take_map)

lemma sorted_selected:
  "sorted_wrt (\<lambda>a b. f b \<le> f a) (slice_from1 k (sorted_desc f xs))"
  using sorted_desc_sorted [of f xs]
  by (simp add: slice_from1_def slice_upto_def sorted_wrt_drop sorted_wrt_take)

lemma selected_entry:
  assumes "(j, s) \<in> set (slice_from1 k (sorted_desc f (enumerate 0 row)))"
  shows "j < length row \<and> s = row ! j"
proof -
  from assms set_slice_from1 [of k "sorted_desc f (enumerate 0 row)"]
  have "(j, s) \<in> set (sorted_desc f (enumerate 0 row))" by (rule subsetD [rotated])
  then have "(j, s) \<in> set (enumerate 0 row)" by (simp only: set_sorted_desc)
  then show ?thesis by (simp add: in_set_enumerate_eq)
qed

lemma slice_from1_prefix:
  assumes "0 \<le> n"
  shows "slice_from1 (n + 1) xs = take (nat n) (slice_from1 (n * 2 + 1) xs)"
proof -
  have "nat (n + 1) = nat n + 1" "nat (n * 2 + 1) = nat n * 2 + 1"
    using assms by (simp_all add: nat_add_distrib nat_mult_distrib)
  moreover have "take (nat n) (drop 1 (take (nat n * 2 + 1) xs)) = drop 1 (take (nat n + 1) xs)"
    by (simp add: take_drop min_def)
  ultimately show ?thesis using assms by (simp add: slice_from1_def slice_upto_def)
qed

subsection \<open>What the two content-based branches return\<close>

lemma slice_upto_is_take: "\<exists>m. slice_upto k xs = take m xs"
  by (auto simp: slice_upto_def)

lemma popular_movies_facts:
  assumes "distinct (map movieId (movies_df e))"
  shows "\<forall>r \<in> set (get_popular_movies e k). rec_movie r \<in> set (movies_df e)"
    and "distinct (map rec_id (get_popular_movies e k))"
    and "sorted_wrt (\<lambda>a b. similarity_score b \<le> similarity_score a) (get_popular_movies e k)"
    and "(\<forall>x \<in> set (ratings_df e). 0 \<le> r_rating x) \<longrightarrow>
           (\<forall>r \<in> set (get_popular_movies e k). 0 \<le> similarity_score r)"
    and "(\<forall>x \<in> set (ratings_df e). 0 \<le> r_rating x \<and> r_rating x \<le> 5) \<longrightarrow>
           (\<forall>r \<in> set (get_popular_movies e k). 0 \<le> similarity_score r \<and> similarity_score r \<le> 1)"
proof -
  obtain m where m: "get_popular_movies e k = take m (popular_table e)"
    unfolding get_popular_movies_table using slice_upto_is_take by blast
  have sub: "r \<in> set (popular_table e)" if "r \<in> set (get_popular_movies e k)" for r
    using that unfolding m by (rule in_set_takeD)
  show "\<forall>r \<in> set (get_popular_movies e k). rec_movie r \<in> set (movies_df e)"
    using sub popular_table_row(1) by blast
  show "distinct (map rec_id (get_popular_movies e k))"
    unfolding m take_map [symmetric]
    using popular_table_distinct [OF assms] by (rule distinct_take)
  show "sorted_wrt (\<lambda>a b. similarity_score b \<le> similarity_score a) (get_popular_movies e k)"
    unfolding m using popular_table_sorted by (rule sorted_wrt_take)
  show "(\<forall>x \<in> set (ratings_df e). 0 \<le> r_rating x) \<longrightarrow>
           (\<forall>r \<in> set (get_popular_movies e k). 0 \<le> similarity_score r)"
    using sub popular_table_score_bounds(1) by blast
  show "(\<forall>x \<in> set (ratings_df e). 0 \<le> r_rating x \<and> r_rating x \<le> 5) \<longrightarrow>
           (\<forall>r \<in> set (get_popular_movies e k). 0 \<le> similarity_score r \<and> similarity_score r \<le> 1)"
    using sub popular_table_score_bounds(2) by blast
qed

lemma nth_movieId_inj:
  assumes "distinct (map movieId ms)" and "i < length ms" and "j < length ms"
    and "movieId (ms ! i) = movieId (ms ! j)"
  shows "i = j"
proof -
  have "(map movieId ms ! i = map movieId ms ! j) = (i = j)"
    using assms(1,2,3) by (intro nth_eq_iff_index_eq) simp_all
  with assms(2,3,4) show ?thesis by simp
qed

lemma known_rows_facts:
  assumes "RecommendationEngine an fr rs = Inr e"
    and "distinct (map movieId (movies_df e))"
    and "i < length (movies_df e)"
    and "C = map (\<lambda>(j, s). \<lparr>rec_movie = movies_df e ! j, similarity_score = s, rec_stats = None\<rparr>)
               (slice_from1 k (sorted_desc snd (enumerate 0 (content_similarity_matrix e ! i))))"
  shows "\<forall>r \<in> set C. rec_movie r \<in> set (movies_df e)"
    and "distinct (map rec_id C)"
    and "sorted_wrt (\<lambda>a b. similarity_score b \<le> similarity_score a) C"
    and "\<forall>r \<in> set C. 0 \<le> similarity_score r \<and> similarity_score r \<le> 1"
proof -
  define sel where "sel = slice_from1 k (sorted_desc snd (enumerate 0 (content_similarity_matrix e ! i)))"
  have C: "C = map (\<lambda>(j, s). \<lparr>rec_movie = movies_df e ! j, similarity_score = s, rec_stats = None\<rparr>) sel"
    by (simp only: assms(4) sel_def)
  have len: "length (content_similarity_matrix e ! i) = length (movies_df e)"
    using engine_matrix_shape(2) [OF assms(1,3)] .
  have entry: "j < length (movies_df e) \<and> s = content_similarity_matrix e ! i ! j"
    if "(j, s) \<in> set sel" for j s
    using selected_entry [of j s k snd "content_similarity_matrix e ! i"] that len
    by (simp only: sel_def)
  have dsel: "distinct (map fst sel)" unfolding sel_def by (rule distinct_fst_selected)
  have ssel: "sorted_wrt (\<lambda>a b. snd b \<le> snd a) sel" unfolding sel_def by (rule sorted_selected)
  show "\<forall>r \<in> set C. rec_movie r \<in> set (movies_df e)"
    using entry by (auto simp: C)
  show "\<forall>r \<in> set C. 0 \<le> similarity_score r \<and> similarity_score r \<le> 1"
  proof
    fix r assume "r \<in> set C"
    then obtain j s where js: "(j, s) \<in> set sel" and r: "similarity_score r = s" by (auto simp: C)
    from entry [OF js] have j: "j < length (movies_df e)" and s: "s = content_similarity_matrix e ! i ! j"
      by simp_all
    from similarity_entry_facts [OF assms(1,3) j] show "0 \<le> similarity_score r \<and> similarity_score r \<le> 1"
      by (simp add: r s)
  qed
  show "sorted_wrt (\<lambda>a b. similarity_score b \<le> similarity_score a) C"
    using ssel by (simp add: C sorted_wrt_map case_prod_unfold)
  have "map rec_id C = map (\<lambda>j. movieId (movies_df e ! j)) (map fst sel)"
    by (simp add: C rec_id_def case_prod_unfold)
  moreover have "inj_on (\<lambda>j. movieId (movies_df e ! j)) (set (map fst sel))"
  proof (rule inj_onI)
    fix a b assume "a \<in> set (map fst sel)" "b \<in> set (map fst sel)"
      and eq: "movieId (movies_df e ! a) = movieId (movies_df e ! b)"
    then obtain s t where "(a, s) \<in> set sel" "(b, t) \<in> set sel" by auto
    then have "a < length (movies_df e)" "b < length (movies_df e)"
      using entry by blast+
    with assms(2) eq show "a = b" by (blast intro: nth_movieId_inj)
  qed
  ultimately show "distinct (map rec_id C)"
    using dsel by (simp only: distinct_map simp_thms)
qed

lemma content_based_facts:
  assumes "RecommendationEngine an fr rs = Inr e"
    and "distinct (map movieId (movies_df e))"
  shows "\<forall>r \<in> set (content_based_recommendations e movie_id k). rec_movie r \<in> set (movies_df e)"
    and "distinct (map rec_id (content_based_recommendations e movie_id k))"
    and "sorted_wrt (\<lambda>a b. similarity_score b \<le> similarity_score a)
           (content_based_recommendations e movie_id k)"
    and "(\<forall>x \<in> set rs. 0 \<le> r_rating x) \<longrightarrow>
           (\<forall>r \<in> set (content_based_recommendations e movie_id k). 0 \<le> similarity_score r)"
    and "(\<forall>x \<in> set rs. 0 \<le> r_rating x \<and> r_rating x \<le> 5) \<longrightarrow>
           (\<forall>r \<in> set (content_based_recommendations e movie_id k).
              0 \<le> similarity_score r \<and> similarity_score r \<le> 1)"
proof -
  have rs: "ratings_df e = rs" using assms(1) by (rule engine_ratings)
  from assms(1) have
    "(\<forall>r \<in> set (content_based_recommendations e movie_id k). rec_movie r \<in> set (movies_df e))
     \<and> distinct (map rec_id (content_based_recommendations e movie_id k))
     \<and> sorted_wrt (\<lambda>a b. similarity_score b \<le> similarity_score a)
           (content_based_recommendations e movie_id k)
     \<and> ((\<forall>x \<in> set rs. 0 \<le> r_rating x) \<longrightarrow>
           (\<forall>r \<in> set (content_based_recommendations e movie_id k). 0 \<le> similarity_score r))
     \<and> ((\<forall>x \<in> set rs. 0 \<le> r_rating x \<and> r_rating x \<le> 5) \<longrightarrow>
           (\<forall>r \<in> set (content_based_recommendations e movie_id k).
              0 \<le> similarity_score r \<and> similarity_score r \<le> 1))"
  proof (cases rule: content_based_cases [where movie_id = movie_id])
    case fallback
    show ?thesis
      using popular_movies_facts [OF assms(2), of k] unfolding fallback rs by blast
  next
    case (row i)
    note f = known_rows_facts [OF assms(1,2) row(1) row(2) [of k]]
    from f(4) have "\<forall>r \<in> set (content_based_recommendations e movie_id k). 0 \<le> similarity_score r"
      by blast
    with f show ?thesis by blast
  qed
  then show "\<forall>r \<in> set (content_based_recommendations e movie_id k). rec_movie r \<in> set (movies_df e)"
    and "distinct (map rec_id (content_based_recommendations e movie_id k))"
    and "sorted_wrt (\<lambda>a b. similarity_score b \<le> similarity_score a)
           (content_based_recommendations e movie_id k)"
    and "(\<forall>x \<in> set rs. 0 \<le> r_rating x) \<longrightarrow>
           (\<forall>r \<in> set (content_based_recommendations e movie_id k). 0 \<le> similarity_score r)"
    and "(\<forall>x \<in> set rs. 0 \<le> r_rating x \<and> r_rating x \<le> 5) \<longrightarrow>
           (\<forall>r \<in> set (content_based_recommendations e movie_id k).
              0 \<le> similarity_score r \<and> similarity_score r \<le> 1)"
    by blast+
qed

lemma content_based_prefix:
  assumes "RecommendationEngine an fr rs = Inr e" and "0 \<le> n"
  shows "content_based_recommendations e movie_id n
           = take (nat n) (content_based_recommendations e movie_id (n * 2))"
  using assms(1)
proof (cases rule: content_based_cases [where movie_id = movie_id])
  case fallback
  have "0 \<le> n * 2" using assms(2) by simp
  then show ?thesis
    unfolding fallback using assms(2)
    by (simp add: popular_take min_def nat_mult_distrib)
next
  case (row i)
  show ?thesis
    unfolding row(2) slice_from1_prefix [OF assms(2)] by (simp only: take_map)
qed

subsection \<open>Hybrid recommendations with the collaborative weight zero\<close>

lemma hybrid_content_only:
  assumes "distinct (map movieId (movies_df e))"
    and "C = content_based_recommendations e movie_id0 (n * 2)"
    and "\<forall>r \<in> set C. rec_movie r \<in> set (movies_df e)"
    and "distinct (map rec_id C)"
    and "sorted_wrt (\<lambda>a b. similarity_score b \<le> similarity_score a) C"
    and "\<forall>r \<in> set C. 0 \<le> similarity_score r"
    and "0 \<le> n"
  obtains rest where
    "hybrid_recommendations e (movie_id0 # movie_ids) n 1 0
       = (if map (\<lambda>r. \<lparr>rec_movie = rec_movie r, similarity_score = 1 * similarity_score r,
                        rec_stats = None\<rparr>) (take (nat n) C) @ rest \<noteq> []
          then map (\<lambda>r. \<lparr>rec_movie = rec_movie r, similarity_score = 1 * similarity_score r,
                        rec_stats = None\<rparr>) (take (nat n) C) @ rest
          else get_popular_movies e n)"
    and "nat n \<le> length C \<Longrightarrow> rest = []"
proof -
  let ?g = "\<lambda>r. (rec_id r, 1 * similarity_score r)"
  let ?h = "\<lambda>r. \<lparr>rec_movie = rec_movie r, similarity_score = 1 * similarity_score r, rec_stats = None\<rparr>"
  let ?L = "collaborative_filtering_recommendations e (movie_id0 # movie_ids) (n * 2)"
  let ?mr = "\<lambda>(k, s). movie_row e k s"
  have d1: "add_scores 1 [] C = map ?g C"
    using add_scores_fresh [OF assms(4), of "[]" 1] by simp
  obtain zs where d2: "add_scores 0 (map ?g C) ?L = map ?g C @ zs" and z: "\<forall>p \<in> set zs. snd p = 0"
    using add_scores_zero_weight [of "map ?g C" ?L] by blast
  have "sorted_wrt (\<lambda>a b. snd b \<le> snd a) (map ?g C)"
    using assms(5) by (simp add: sorted_wrt_map)
  moreover have "sorted_wrt (\<lambda>a b. snd b \<le> snd a) zs"
    using z by (induction zs) auto
  moreover have "\<forall>x \<in> set (map ?g C). \<forall>y \<in> set zs. snd y \<le> snd x"
    using z assms(6) by auto
  ultimately have "sorted_wrt (\<lambda>a b. snd b \<le> snd a) (map ?g C @ zs)"
    by (simp only: sorted_wrt_append simp_thms)
  then have s: "sorted_desc snd (map ?g C @ zs) = map ?g C @ zs" by (rule sorted_desc_id)
  define rest where "rest = concat (map ?mr (take (nat n - length C) zs))"
  have t: "slice_upto n (map ?g C @ zs) = map ?g (take (nat n) C) @ take (nat n - length C) zs"
    by (simp add: slice_upto_take [OF assms(7)] take_map)
  have mem: "\<forall>r \<in> set (take (nat n) C). rec_movie r \<in> set (movies_df e)"
    using assms(3) by (auto dest: in_set_takeD)
  have rows: "concat (map ?mr (map ?g (take (nat n) C) @ take (nat n - length C) zs))
                = map ?h (take (nat n) C) @ rest"
    using rows_of_recs [OF assms(1) mem, of "\<lambda>r. 1 * similarity_score r"]
    by (simp only: map_append concat_append rest_def)
  have "hybrid_recommendations e (movie_id0 # movie_ids) n 1 0
          = (if map ?h (take (nat n) C) @ rest \<noteq> [] then map ?h (take (nat n) C) @ rest
             else get_popular_movies e n)"
    unfolding hybrid_recommendations_def Let_def list.case assms(2) [symmetric] d1 d2 s t rows ..
  moreover have "rest = []" if "nat n \<le> length C"
    using that by (simp add: rest_def)
  ultimately show thesis by (rule that)
qed

text \<open>
  C8. On a constructed engine with unique catalog ids and non-negative ratings, for every
  non-empty seed list and \<open>n \<ge> 0\<close>, the ranking of
  \<^verbatim>\<open>hybrid_recommendations(ids, n, content_weight=1.0, collab_weight=0.0)\<close> starts with the
  ranking of \<^verbatim>\<open>content_based_recommendations(ids[0], n)\<close>, same ids in the same order, and is
  that ranking when the content-based list has \<open>n\<close> rows. When it has fewer, what follows in
  the hybrid list is padding: collaborative candidates, which the zero weight scores 0.
\<close>

theorem hybrid_content_weight_only_ranking:
  assumes "RecommendationEngine an fr rs = Inr e"
    and "distinct (map movieId (movies_df e))"
    and "\<forall>x \<in> set rs. 0 \<le> r_rating x"
    and "0 \<le> n"
  shows "take (length (content_based_recommendations e movie_id0 n))
           (map rec_id (hybrid_recommendations e (movie_id0 # movie_ids) n 1 0))
           = map rec_id (content_based_recommendations e movie_id0 n)
       \<and> (length (content_based_recommendations e movie_id0 n) = nat n \<longrightarrow>
            map rec_id (hybrid_recommendations e (movie_id0 # movie_ids) n 1 0)
              = map rec_id (content_based_recommendations e movie_id0 n))"
proof -
  define C where "C = content_based_recommendations e movie_id0 (n * 2)"
  let ?h = "\<lambda>r. \<lparr>rec_movie = rec_movie r, similarity_score = 1 * similarity_score r, rec_stats = None\<rparr>"
  let ?H = "hybrid_recommendations e (movie_id0 # movie_ids) n 1 0"
  note f = content_based_facts [OF assms(1,2), of movie_id0 "n * 2", folded C_def]
  from f(4) assms(3) have nn: "\<forall>r \<in> set C. 0 \<le> similarity_score r" by blast
  obtain rest where H: "?H = (if map ?h (take (nat n) C) @ rest \<noteq> []
          then map ?h (take (nat n) C) @ rest else get_popular_movies e n)"
    and rest: "nat n \<le> length C \<Longrightarrow> rest = []"
    using hybrid_content_only [OF assms(2) C_def f(1) f(2) f(3) nn assms(4)] by blast
  have cb: "content_based_recommendations e movie_id0 n = take (nat n) C"
    unfolding C_def using assms(1,4) by (rule content_based_prefix)
  have ids: "map rec_id (map ?h xs) = map rec_id xs" for xs
    by (simp add: rec_id_def)
  show ?thesis
  proof (cases "map ?h (take (nat n) C) @ rest = []")
    case True
    then have e: "take (nat n) C = []" and r: "rest = []" by simp_all
    have 1: "take (length (take (nat n) C)) (map rec_id ?H) = map rec_id (take (nat n) C)"
      by (simp add: e)
    have 2: "map rec_id ?H = map rec_id (take (nat n) C)" if "length (take (nat n) C) = nat n"
    proof -
      from that e have "nat n = 0" by simp
      with assms(4) have "n = 0" by simp
      then have "get_popular_movies e n = []" by (simp add: popular_take)
      with True H e show ?thesis by simp
    qed
    from 1 2 show ?thesis unfolding cb by blast
  next
    case False
    with H have Hr: "?H = map ?h (take (nat n) C) @ rest" by simp
    have 1: "take (length (take (nat n) C)) (map rec_id ?H) = map rec_id (take (nat n) C)"
      unfolding Hr by (simp only: map_append ids) simp
    have 2: "map rec_id ?H = map rec_id (take (nat n) C)" if "length (take (nat n) C) = nat n"
    proof -
      from that have "nat n \<le> length C" by simp
      then have "rest = []" by (rule rest)
      then show ?thesis unfolding Hr by (simp only: append_Nil2 ids)
    qed
    from 1 2 show ?thesis unfolding cb by blast
  qed
qed

lemma sample_content_based_1:
  "content_based_recommendations (sample_engine rs) 1 1
     = [\<lparr>rec_movie = \<lparr>movieId = 2, title = ''Casino'', genres = Some ''Drama'', year = Some 1995\<rparr>,
         similarity_score = 1, rec_stats = None\<rparr>]"
  by (simp add: content_based_recommendations_def sample_engine_def matching_labels_def
      matrix_row_def
      sample_movies_def fillna_def enumerate_eq_zip upt_rec sorted_desc_def slice_from1_def
      slice_upto_def)

theorem hybrid_content_weight_only_ranking_witness:
  "RecommendationEngine sample_analyzer (range_index sample_movies) sample_ratings
     = Inr (sample_engine sample_ratings)
   \<and> distinct (map movieId (movies_df (sample_engine sample_ratings)))
   \<and> (0::int) \<le> 1
   \<and> length (content_based_recommendations (sample_engine sample_ratings) 1 1) = nat 1
   \<and> map rec_id (content_based_recommendations (sample_engine sample_ratings) 1 1) = [2]
   \<and> map rec_id (hybrid_recommendations (sample_engine sample_ratings) [1] 1 1 0) = [2]"
proof -
  let ?E = "sample_engine sample_ratings"
  have a: "RecommendationEngine sample_analyzer (range_index sample_movies) sample_ratings = Inr ?E"
    by (rule sample_engine_constructs)
  have b: "distinct (map movieId (movies_df ?E))" by (rule sample_distinct_ids)
  have c: "\<forall>x \<in> set sample_ratings. 0 \<le> r_rating x" by (simp add: sample_ratings_rows)
  have d: "(0::int) \<le> 1" by simp
  have l: "length (content_based_recommendations ?E 1 1) = nat 1"
    by (simp add: sample_content_based_1)
  have i: "map rec_id (content_based_recommendations ?E 1 1) = [2]"
    by (simp add: sample_content_based_1 rec_id_def)
  from hybrid_content_weight_only_ranking [OF a b c d, of 1 "[]"] l
  have "map rec_id (hybrid_recommendations ?E [1] 1 1 0)
          = map rec_id (content_based_recommendations ?E 1 1)"
    by blast
  then have h: "map rec_id (hybrid_recommendations ?E [1] 1 1 0) = [2]" by (simp only: i)
  from a b d l i h show ?thesis by (intro conjI)
qed

subsection \<open>The neighbour model on non-negative ratings\<close>















subsection \<open>Bounds on hybrid scores\<close>







end
